theory Spec2Isabelle
  imports Main "HOL-Library.Word"
begin

section \<open>Package circuitbreaker (src/pkg/circuitbreaker/circuitbreaker.go)\<close>

subsection \<open>Time\<close>

text \<open>
  A \<^verbatim>\<open>time.Time\<close> is modelled as an instant in nanoseconds (an unbounded integer), a
  \<^verbatim>\<open>time.Duration\<close> as a number of nanoseconds in the range of a signed 64-bit integer.
  \<^verbatim>\<open>time.Since(t)\<close> is \<^verbatim>\<open>time.Now().Sub(t)\<close>, and Go's \<^verbatim>\<open>Sub\<close> saturates at the
  smallest and the largest duration. Every call of \<^verbatim>\<open>time.Now()\<close> in the source is a
  parameter of the modelled operation: the instant that call reads.
\<close>

type_synonym Time = int
type_synonym Duration = int

definition minDuration :: Duration where
  "minDuration = - (2 ^ 63)"

definition maxDuration :: Duration where
  "maxDuration = 2 ^ 63 - 1"

definition Second :: Duration where
  "Second = 1000000000"

definition time_Sub :: "Time \<Rightarrow> Time \<Rightarrow> Duration" where
  "time_Sub t u =
     (if t - u < minDuration then minDuration
      else if maxDuration < t - u then maxDuration
      else t - u)"

definition time_Since :: "Time \<Rightarrow> Time \<Rightarrow> Duration" where
  "time_Since now t = time_Sub now t"

text \<open>The zero value of \<^verbatim>\<open>time.Time\<close> (January 1, year 1), relative to the Unix epoch.\<close>

definition zeroTime :: Time where
  "zeroTime = - 62135596800 * Second"

subsection \<open>The breaker\<close>

text \<open>
  \<^verbatim>\<open>State\<close> is an integer type with three named values. The breaker only ever stores
  these three, so the \<^verbatim>\<open>default\<close> branch of \<^verbatim>\<open>AllowRequest\<close> is never taken and the
  type is modelled by its three values.
\<close>

datatype State = StateClosed | StateOpen | StateHalfOpen

text \<open>
  The struct \<^verbatim>\<open>CircuitBreaker\<close>. The counters are Go \<^verbatim>\<open>int\<close>s; they only ever grow by one
  per call and are modelled as integers. The callback \<^verbatim>\<open>onStateChange\<close> is kept as the flag
  "a callback is installed" (the field is not nil); the calls that \<^verbatim>\<open>transitionTo\<close> spawns
  (\<^verbatim>\<open>go cb.onStateChange(name, old, new)\<close>) are recorded, oldest first, in \<open>notified\<close>.
  The mutex is not modelled: every operation runs as one atomic step.
\<close>

record CircuitBreaker =
  name :: string
  state :: State
  failureCount :: int
  successCount :: int
  lastFailure :: Time
  lastStateChange :: Time
  failureThreshold :: int
  successThreshold :: int
  timeout :: Duration
  onStateChange :: bool
  notified :: "(string \<times> State \<times> State) list"

record Config =
  Name :: string
  FailureThreshold :: int
  SuccessThreshold :: int
  Timeout :: Duration
  OnStateChange :: bool

definition New :: "Time \<Rightarrow> Config \<Rightarrow> CircuitBreaker" where
  "New now cfg =
     \<lparr> name = Name cfg,
       state = StateClosed,
       failureCount = 0,
       successCount = 0,
       lastFailure = zeroTime,
       lastStateChange = now,
       failureThreshold = (if FailureThreshold cfg \<le> 0 then 3 else FailureThreshold cfg),
       successThreshold = (if SuccessThreshold cfg \<le> 0 then 1 else SuccessThreshold cfg),
       timeout = (if Timeout cfg \<le> 0 then 30 * Second else Timeout cfg),
       onStateChange = OnStateChange cfg,
       notified = [] \<rparr>"

definition transitionTo :: "Time \<Rightarrow> State \<Rightarrow> CircuitBreaker \<Rightarrow> CircuitBreaker" where
  "transitionTo now newState cb =
     (if state cb = newState then cb
      else cb\<lparr> state := newState,
               lastStateChange := now,
               failureCount := 0,
               successCount := 0,
               notified := (if onStateChange cb
                            then notified cb @ [(name cb, state cb, newState)]
                            else notified cb) \<rparr>)"

text \<open>
  \<open>AllowRequest now tc cb\<close>: \<open>now\<close> is the instant read by \<^verbatim>\<open>time.Since\<close>, \<open>tc\<close> the
  instant read inside \<^verbatim>\<open>transitionTo\<close>. The result is the returned boolean and the
  breaker after the call.
\<close>

definition AllowRequest :: "Time \<Rightarrow> Time \<Rightarrow> CircuitBreaker \<Rightarrow> bool \<times> CircuitBreaker" where
  "AllowRequest now tc cb =
     (case state cb of
        StateClosed \<Rightarrow> (True, cb)
      | StateOpen \<Rightarrow>
          (if timeout cb \<le> time_Since now (lastFailure cb)
           then (True, transitionTo tc StateHalfOpen cb)
           else (False, cb))
      | StateHalfOpen \<Rightarrow> (True, cb))"

definition RecordSuccess :: "Time \<Rightarrow> CircuitBreaker \<Rightarrow> CircuitBreaker" where
  "RecordSuccess tc cb =
     (case state cb of
        StateClosed \<Rightarrow> cb\<lparr> failureCount := 0 \<rparr>
      | StateHalfOpen \<Rightarrow>
          (let cb1 = cb\<lparr> successCount := successCount cb + 1 \<rparr>
           in if successThreshold cb1 \<le> successCount cb1
              then transitionTo tc StateClosed cb1
              else cb1)
      | StateOpen \<Rightarrow> cb)"

text \<open>
  \<open>RecordFailure now tc cb\<close>: \<open>now\<close> is the instant stored in \<open>lastFailure\<close>, \<open>tc\<close> the
  instant read inside \<^verbatim>\<open>transitionTo\<close>.
\<close>

definition RecordFailure :: "Time \<Rightarrow> Time \<Rightarrow> CircuitBreaker \<Rightarrow> CircuitBreaker" where
  "RecordFailure now tc cb =
     (let cb1 = cb\<lparr> failureCount := failureCount cb + 1, lastFailure := now \<rparr>
      in case state cb1 of
           StateClosed \<Rightarrow>
             (if failureThreshold cb1 \<le> failureCount cb1
              then transitionTo tc StateOpen cb1
              else cb1)
         | StateHalfOpen \<Rightarrow> transitionTo tc StateOpen cb1
         | StateOpen \<Rightarrow> cb1)"

definition Reset :: "Time \<Rightarrow> CircuitBreaker \<Rightarrow> CircuitBreaker" where
  "Reset tc cb = (transitionTo tc StateClosed cb)\<lparr> failureCount := 0, successCount := 0 \<rparr>"

text \<open>
  \<^verbatim>\<open>Execute(fn)\<close>. The closure \<open>fn\<close> acts on the world outside the breaker: it maps the
  world before the call to its returned error (\<open>None\<close> is nil) and the world after.
  An error is either the package's sentinel \<^verbatim>\<open>ErrCircuitOpen\<close> or an error of the caller.
  \<open>ta\<close> and \<open>tt\<close> are the instants read by \<^verbatim>\<open>AllowRequest\<close>, \<open>tf\<close> and \<open>tr\<close> those read
  by \<^verbatim>\<open>RecordFailure\<close> or \<^verbatim>\<open>RecordSuccess\<close> after \<open>fn\<close> has returned.
\<close>

datatype 'e error = ErrCircuitOpen | CallError 'e

definition Execute ::
  "Time \<Rightarrow> Time \<Rightarrow> Time \<Rightarrow> Time \<Rightarrow> ('w \<Rightarrow> 'e error option \<times> 'w) \<Rightarrow> CircuitBreaker \<Rightarrow> 'w
     \<Rightarrow> 'e error option \<times> CircuitBreaker \<times> 'w" where
  "Execute ta tt tf tr fn cb w =
     (case AllowRequest ta tt cb of
        (False, cb1) \<Rightarrow> (Some ErrCircuitOpen, cb1, w)
      | (True, cb1) \<Rightarrow>
          (case fn w of
             (Some err, w1) \<Rightarrow> (Some err, RecordFailure tf tr cb1, w1)
           | (None, w1) \<Rightarrow> (None, RecordSuccess tr cb1, w1)))"

text \<open>Consecutive calls, each with the instants it reads.\<close>

fun RecordFailure_calls :: "(Time \<times> Time) list \<Rightarrow> CircuitBreaker \<Rightarrow> CircuitBreaker" where
  "RecordFailure_calls [] cb = cb"
| "RecordFailure_calls ((now, tc) # ts) cb = RecordFailure_calls ts (RecordFailure now tc cb)"

fun RecordSuccess_calls :: "Time list \<Rightarrow> CircuitBreaker \<Rightarrow> CircuitBreaker" where
  "RecordSuccess_calls [] cb = cb"
| "RecordSuccess_calls (tc # ts) cb = RecordSuccess_calls ts (RecordSuccess tc cb)"

text \<open>
  One call of the breaker's interface with the instants it reads, and a run of such calls
  on a breaker. \<^verbatim>\<open>Execute\<close> is \<^verbatim>\<open>AllowRequest\<close> followed by \<^verbatim>\<open>RecordFailure\<close> or
  \<^verbatim>\<open>RecordSuccess\<close>, so the breakers a program can reach from \<open>New\<close> are the results
  of these runs.
\<close>

datatype Call =
    CallAllowRequest Time Time
  | CallRecordSuccess Time
  | CallRecordFailure Time Time
  | CallReset Time

fun call :: "Call \<Rightarrow> CircuitBreaker \<Rightarrow> CircuitBreaker" where
  "call (CallAllowRequest now tc) cb = snd (AllowRequest now tc cb)"
| "call (CallRecordSuccess tc) cb = RecordSuccess tc cb"
| "call (CallRecordFailure now tc) cb = RecordFailure now tc cb"
| "call (CallReset tc) cb = Reset tc cb"

fun calls :: "Call list \<Rightarrow> CircuitBreaker \<Rightarrow> CircuitBreaker" where
  "calls [] cb = cb"
| "calls (c # cs) cb = calls cs (call c cb)"

fun AllowRequest_calls ::
  "(Time \<times> Time) list \<Rightarrow> CircuitBreaker \<Rightarrow> bool list \<times> CircuitBreaker" where
  "AllowRequest_calls [] cb = ([], cb)"
| "AllowRequest_calls ((now, tc) # ts) cb =
     (case AllowRequest now tc cb of
        (ok, cb1) \<Rightarrow> (case AllowRequest_calls ts cb1 of (oks, cb2) \<Rightarrow> (ok # oks, cb2)))"

text \<open>A closure instrumented with the number of times it has been invoked.\<close>

definition counted :: "('w \<Rightarrow> 'r \<times> 'w) \<Rightarrow> nat \<times> 'w \<Rightarrow> 'r \<times> (nat \<times> 'w)" where
  "counted fn nw = (case fn (snd nw) of (r, w1) \<Rightarrow> (r, (Suc (fst nw), w1)))"

text \<open>Breakers used as concrete inputs.\<close>

definition config3 :: Config where
  "config3 = \<lparr> Name = ''worker-0'', FailureThreshold = 3, SuccessThreshold = 2,
               Timeout = 30 * Second, OnStateChange = True \<rparr>"

definition halfOpen3 :: CircuitBreaker where
  "halfOpen3 = (New 0 config3)\<lparr> state := StateHalfOpen, lastFailure := 5 * Second \<rparr>"

definition open3 :: CircuitBreaker where
  "open3 = (New 0 config3)\<lparr> state := StateOpen, lastFailure := 5 * Second \<rparr>"

section \<open>The gateway (src/cmd/gateway/main.go)\<close>

text \<open>
  A \<^verbatim>\<open>Worker\<close> with its breaker and its liveness flag (\<^verbatim>\<open>Healthy\<close>, an atomic boolean);
  the connection and the RPC client are the transport and are left out. In the source the
  pool is a slice of pointers, so a worker is identified by its index in the pool. Of the
  \<^verbatim>\<open>Gateway\<close> the model keeps the pool and the rotation cursor \<^verbatim>\<open>workerIndex\<close>, an
  \<^verbatim>\<open>atomic.Uint32\<close>: a 32-bit word whose addition wraps around.
\<close>

record Worker =
  ID :: string
  Address :: string
  CB :: CircuitBreaker
  Healthy :: bool

record Gateway =
  workers :: "Worker list"
  workerIndex :: "32 word"

text \<open>
  \<^verbatim>\<open>createWorker\<close>, without the connection: the breaker configuration and the initial
  liveness flag are those of the source.
\<close>

definition createWorker :: "Time \<Rightarrow> string \<Rightarrow> string \<Rightarrow> Worker" where
  "createWorker now wid addr =
     \<lparr> ID = wid,
       Address = addr,
       CB = New now \<lparr> Name = wid, FailureThreshold = 3, SuccessThreshold = 1,
                      Timeout = 30 * Second, OnStateChange = True \<rparr>,
       Healthy = True \<rparr>"

text \<open>
  The result of \<^verbatim>\<open>selectWorker\<close>: the selected worker (its index in the pool), an error
  with its text, or the run-time panic of an index out of range.
\<close>

datatype select_result = Selected nat | SelectError string | IndexPanic

text \<open>
  The test of the loop body, \<^verbatim>\<open>worker.Healthy.Load() && worker.CB.AllowRequest()\<close>, on a
  worker: the boolean and the worker afterwards. \<^verbatim>\<open>AllowRequest\<close> is not called when the
  flag is false. The pair \<open>t\<close> holds the two instants \<^verbatim>\<open>AllowRequest\<close> reads.
\<close>

definition inspect :: "Time \<times> Time \<Rightarrow> Worker \<Rightarrow> bool \<times> Worker" where
  "inspect t worker =
     (if Healthy worker
      then (case AllowRequest (fst t) (snd t) (CB worker) of
              (ok, cb1) \<Rightarrow> (ok, worker\<lparr> CB := cb1 \<rparr>))
      else (False, worker))"

text \<open>
  The loop of \<^verbatim>\<open>selectWorker\<close>, from the value \<open>i\<close> of the loop variable on. All of
  \<open>startIndex\<close>, \<open>workerCount\<close>, \<open>i\<close> and \<open>idx\<close> are \<^verbatim>\<open>uint32\<close>. \<open>clk i\<close> are the instants
  read in iteration \<open>i\<close>. Besides the result and the pool, the function returns the slots it
  has inspected, in order (\<open>seen\<close>, which the source does not compute).
\<close>

function scanWorkers ::
  "(32 word \<Rightarrow> Time \<times> Time) \<Rightarrow> 32 word \<Rightarrow> 32 word \<Rightarrow> 32 word \<Rightarrow> Worker list \<Rightarrow> nat list
     \<Rightarrow> select_result \<times> Worker list \<times> nat list" where
  "scanWorkers clk startIndex workerCount i ws seen =
     (if i < workerCount
      then (let idx = unat ((startIndex + i) mod workerCount) in
            if length ws \<le> idx then (IndexPanic, ws, seen)
            else if fst (inspect (clk i) (ws ! idx))
            then (Selected idx, ws[idx := snd (inspect (clk i) (ws ! idx))], seen @ [idx])
            else scanWorkers clk startIndex workerCount (i + 1)
                   (ws[idx := snd (inspect (clk i) (ws ! idx))]) (seen @ [idx]))
      else (SelectError ''all workers are unavailable'', ws, seen))"
  by pat_completeness auto
termination
proof (relation "measure (\<lambda>(clk, startIndex, workerCount, i, ws, seen). unat workerCount - unat i)")
  show "wf (measure (\<lambda>(clk, startIndex, workerCount, i, ws, seen). unat workerCount - unat i))"
    by simp
next
  fix clk :: "32 word \<Rightarrow> Time \<times> Time" and startIndex workerCount i :: "32 word"
    and ws :: "Worker list" and seen :: "nat list" and x
  assume lt: "i < workerCount"
  then have "unat (i + 1) = Suc (unat i)"
    by unat_arith
  moreover from lt have "unat i < unat workerCount"
    by (simp add: word_less_nat_alt)
  ultimately show "((clk, startIndex, workerCount, i + 1,
        ws[x := snd (inspect (clk i) (ws ! x))], seen @ [x]),
       (clk, startIndex, workerCount, i, ws, seen))
      \<in> measure (\<lambda>(clk, startIndex, workerCount, i, ws, seen). unat workerCount - unat i)"
    by simp
qed

declare scanWorkers.simps [simp del]

text \<open>
  \<^verbatim>\<open>selectWorker\<close>: the result, the gateway afterwards and the slots inspected.
  \<^verbatim>\<open>g.workerIndex.Add(1)\<close> stores and returns the incremented cursor.
\<close>

definition selectWorker ::
  "(32 word \<Rightarrow> Time \<times> Time) \<Rightarrow> Gateway \<Rightarrow> select_result \<times> Gateway \<times> nat list" where
  "selectWorker clk g =
     (if length (workers g) = 0
      then (SelectError ''no workers available'', g, [])
      else (let added = workerIndex g + 1;
                startIndex = added - 1;
                workerCount = (of_nat (length (workers g)) :: 32 word)
            in case scanWorkers clk startIndex workerCount 0 (workers g) [] of
                 (r, ws, seen) \<Rightarrow> (r, g\<lparr> workers := ws, workerIndex := added \<rparr>, seen)))"

text \<open>Consecutive calls of \<^verbatim>\<open>selectWorker\<close>: each result with the slots that call inspected.\<close>

fun selectWorker_calls ::
  "(32 word \<Rightarrow> Time \<times> Time) list \<Rightarrow> Gateway \<Rightarrow> (select_result \<times> nat list) list \<times> Gateway" where
  "selectWorker_calls [] g = ([], g)"
| "selectWorker_calls (clk # clks) g =
     (case selectWorker clk g of
        (r, g1, seen) \<Rightarrow>
          (case selectWorker_calls clks g1 of (rs, g2) \<Rightarrow> ((r, seen) # rs, g2)))"

subsection \<open>Forwarding a request\<close>

text \<open>
  The error of the remote call \<^verbatim>\<open>worker.Client.GenerateText\<close>. \<^verbatim>\<open>handlePrompt\<close> looks at an
  error in two ways only: it compares it with \<^verbatim>\<open>ErrCircuitOpen\<close> and it takes its text
  \<^verbatim>\<open>err.Error()\<close>. The model keeps the kind of the error (the deadline of the call was
  exceeded, or the backend reported an error) and its text.
\<close>

datatype rpc_error = DeadlineExceeded string | BackendError string

fun errorText :: "rpc_error \<Rightarrow> string" where
  "errorText (DeadlineExceeded s) = s"
| "errorText (BackendError s) = s"

record ErrorResponse =
  Error :: string
  Code :: int
  Message :: string

text \<open>\<^verbatim>\<open>writeError\<close>: the HTTP status written and the JSON body.\<close>

definition writeError :: "int \<Rightarrow> string \<Rightarrow> string \<Rightarrow> int \<times> ErrorResponse" where
  "writeError code message detail = (code, \<lparr> Error = message, Code = code, Message = detail \<rparr>)"

text \<open>
  What \<^verbatim>\<open>handlePrompt\<close> answers: the response of the worker of the given index, an error
  written by \<^verbatim>\<open>writeError\<close>, or a panic. Each comes with the status label passed to
  \<^verbatim>\<open>metrics.RecordRequest\<close>.
\<close>

datatype 'r http_reply = ReplyOK 'r nat | ReplyError "int \<times> ErrorResponse" | ReplyPanic

text \<open>The branch \<^verbatim>\<open>if err != nil\<close> after \<^verbatim>\<open>Execute\<close>, and the one after \<^verbatim>\<open>selectWorker\<close>.\<close>

fun executeErrorReply :: "rpc_error error \<Rightarrow> 'r http_reply \<times> string" where
  "executeErrorReply ErrCircuitOpen =
     (ReplyError (writeError 503 ''worker temporarily unavailable'' ''''), ''500'')"
| "executeErrorReply (CallError e) =
     (ReplyError (writeError 500 ''generation failed'' (errorText e)), ''500'')"

definition selectErrorReply :: "string \<Rightarrow> 'r http_reply \<times> string" where
  "selectErrorReply e = (ReplyError (writeError 503 ''no workers available'' e), ''503'')"

text \<open>
  The closure passed to \<^verbatim>\<open>Execute\<close>: it runs the remote call \<open>gen\<close>, stores the response in
  the captured variable \<^verbatim>\<open>resp\<close> (the first component of the world) and returns the error.
\<close>

definition closure ::
  "('w \<Rightarrow> (rpc_error + 'r) \<times> 'w) \<Rightarrow> 'r option \<times> 'w \<Rightarrow> rpc_error error option \<times> ('r option \<times> 'w)" where
  "closure gen rw =
     (case gen (snd rw) of
        (Inl e, w1) \<Rightarrow> (Some (CallError e), (None, w1))
      | (Inr r, w1) \<Rightarrow> (None, (Some r, w1)))"

text \<open>
  \<^verbatim>\<open>handlePrompt\<close> from the selection of a worker on (the API key and the request body have
  been checked before). \<open>generate k\<close> is the remote call on the worker of index \<open>k\<close>.
  The handler holds no lock between the return of \<^verbatim>\<open>selectWorker\<close> and the call of
  \<^verbatim>\<open>Execute\<close>: \<open>between\<close> are the calls that other requests make on the breaker of the
  selected worker in the meantime, in the order in which its mutex serves them (the empty
  list when the handler runs alone).
\<close>

definition handlePrompt ::
  "(32 word \<Rightarrow> Time \<times> Time) \<Rightarrow> Call list \<Rightarrow> Time \<Rightarrow> Time \<Rightarrow> Time \<Rightarrow> Time
     \<Rightarrow> (nat \<Rightarrow> 'w \<Rightarrow> (rpc_error + 'r) \<times> 'w) \<Rightarrow> Gateway \<Rightarrow> 'w
     \<Rightarrow> ('r http_reply \<times> string) \<times> Gateway \<times> 'w" where
  "handlePrompt clk between ta tt tf tr generate g w =
     (case selectWorker clk g of
        (SelectError e, g1, seen) \<Rightarrow> (selectErrorReply e, g1, w)
      | (IndexPanic, g1, seen) \<Rightarrow> ((ReplyPanic, ''''), g1, w)
      | (Selected k, g1, seen) \<Rightarrow>
          (case Execute ta tt tf tr (closure (generate k))
                  (calls between (CB (workers g1 ! k))) (None, w) of
             (err, cb1, (resp, w1)) \<Rightarrow>
               (let g2 = g1\<lparr> workers := (workers g1)[k := (workers g1 ! k)\<lparr> CB := cb1 \<rparr>] \<rparr>
                in case err of
                     Some e \<Rightarrow> (executeErrorReply e, g2, w1)
                   | None \<Rightarrow>
                       (case resp of
                          Some r \<Rightarrow> ((ReplyOK r k, ''200''), g2, w1)
                        | None \<Rightarrow> ((ReplyPanic, ''''), g2, w1)))))"

text \<open>
  What a caller can tell of an answer apart from free text: the HTTP status, the \<open>error\<close>
  field of the body and the status label recorded in the metrics.
\<close>

definition replyClass :: "'r http_reply \<times> string \<Rightarrow> int \<times> string \<times> string" where
  "replyClass x =
     (case fst x of
        ReplyOK r k \<Rightarrow> (200, [], snd x)
      | ReplyError (status, body) \<Rightarrow> (status, Error body, snd x)
      | ReplyPanic \<Rightarrow> (0, [], snd x))"

text \<open>Gateways and clocks used as concrete inputs.\<close>

definition clock0 :: "32 word \<Rightarrow> Time \<times> Time" where
  "clock0 i = (Second, Second)"

definition pool3 :: "Worker list" where
  "pool3 = [createWorker 0 ''worker-0'' ''10.0.0.1:50051'',
            createWorker 0 ''worker-1'' ''10.0.0.2:50051'',
            createWorker 0 ''worker-2'' ''10.0.0.3:50051'']"

definition gateway3 :: Gateway where
  "gateway3 = \<lparr> workers = pool3, workerIndex = 4 \<rparr>"

definition gateway2 :: Gateway where
  "gateway2 = \<lparr> workers = take 2 pool3, workerIndex = 0 \<rparr>"

definition gateway0 :: Gateway where
  "gateway0 = \<lparr> workers = [], workerIndex = 0 \<rparr>"

definition gatewayDown :: Gateway where
  "gatewayDown =
     \<lparr> workers = [(createWorker 0 ''worker-0'' ''10.0.0.1:50051'')\<lparr> Healthy := False \<rparr>,
                  (createWorker 0 ''worker-1'' ''10.0.0.2:50051'')\<lparr> CB := open3 \<rparr>],
       workerIndex = 7 \<rparr>"

section \<open>Properties of the breaker\<close>

lemma New_config:
  "state (New t cfg) = StateClosed" "failureCount (New t cfg) = 0" "successCount (New t cfg) = 0"
  "0 < failureThreshold (New t cfg)" "0 < successThreshold (New t cfg)"
  "0 < timeout (New t cfg)" "notified (New t cfg) = []"
  by (simp_all add: New_def Second_def)

lemma RecordFailure_below:
  assumes "state cb = StateClosed" "failureCount cb + 1 < failureThreshold cb"
  shows "RecordFailure now tc cb = cb\<lparr> failureCount := failureCount cb + 1, lastFailure := now \<rparr>"
  using assms by (simp add: RecordFailure_def Let_def)

lemma RecordFailure_calls_below:
  assumes "state cb = StateClosed" "failureCount cb + int (length ts) < failureThreshold cb"
  shows "state (RecordFailure_calls ts cb) = StateClosed
       \<and> failureCount (RecordFailure_calls ts cb) = failureCount cb + int (length ts)
       \<and> failureThreshold (RecordFailure_calls ts cb) = failureThreshold cb"
  using assms
proof (induction ts arbitrary: cb)
  case Nil
  then show ?case by simp
next
  case (Cons p ts)
  obtain now tc where p: "p = (now, tc)" by (cases p)
  let ?cb1 = "cb\<lparr> failureCount := failureCount cb + 1, lastFailure := now \<rparr>"
  from Cons.prems have step: "RecordFailure now tc cb = ?cb1"
    by (intro RecordFailure_below) simp_all
  from Cons.prems have "state ?cb1 = StateClosed"
    and "failureCount ?cb1 + int (length ts) < failureThreshold ?cb1"
    by simp_all
  from Cons.IH [OF this] show ?case
    by (simp add: p step)
qed

lemma RecordFailure_calls_append:
  "RecordFailure_calls (ts @ us) cb = RecordFailure_calls us (RecordFailure_calls ts cb)"
  by (induction ts arbitrary: cb) auto

lemma RecordFailure_reaches:
  assumes "state cb = StateClosed" "failureThreshold cb \<le> failureCount cb + 1"
  shows "state (RecordFailure now tc cb) = StateOpen"
  using assms by (simp add: RecordFailure_def Let_def transitionTo_def)

lemma RecordSuccess_calls_append:
  "RecordSuccess_calls (ts @ us) cb = RecordSuccess_calls us (RecordSuccess_calls ts cb)"
  by (induction ts arbitrary: cb) auto

lemma time_Since_ge_iff:
  assumes "0 < d" "d \<le> maxDuration"
  shows "d \<le> time_Since now t \<longleftrightarrow> t + d \<le> now"
  using assms by (auto simp: time_Since_def time_Sub_def minDuration_def maxDuration_def)

text \<open>
  C1. A breaker with failure threshold \<open>F\<close> that is Closed with no failure counted (as \<open>New\<close>
  builds it) is Open after exactly \<open>F\<close> consecutive calls of \<open>RecordFailure\<close>, and still
  Closed after only \<open>F - 1\<close> of them (the first \<open>F - 1\<close> of these calls).
\<close>

theorem C1_breaker_threshold:
  assumes "state cb = StateClosed" and "failureCount cb = 0" and "0 < failureThreshold cb"
    and len: "int (length ts) = failureThreshold cb"
  shows "state (RecordFailure_calls ts cb) = StateOpen
       \<and> state (RecordFailure_calls (butlast ts) cb) = StateClosed"
proof -
  from len assms have "ts \<noteq> []" by auto
  then obtain us p where ts: "ts = us @ [p]"
    by (metis rev_exhaust)
  obtain now tc where p: "p = (now, tc)" by (cases p)
  let ?cb1 = "RecordFailure_calls us cb"
  from len ts assms have "failureCount cb + int (length us) < failureThreshold cb"
    by simp
  from RecordFailure_calls_below [OF assms(1) this] len ts assms
  have closed: "state ?cb1 = StateClosed" and "failureThreshold ?cb1 \<le> failureCount ?cb1 + 1"
    by simp_all
  then have "state (RecordFailure now tc ?cb1) = StateOpen"
    by (rule RecordFailure_reaches)
  then have "state (RecordFailure_calls ts cb) = StateOpen"
    by (simp add: ts p RecordFailure_calls_append)
  with closed show ?thesis
    by (simp add: ts)
qed

theorem C1_breaker_threshold_witness:
  "state (New 0 config3) = StateClosed \<and> failureCount (New 0 config3) = 0
   \<and> 0 < failureThreshold (New 0 config3)
   \<and> int (length [(1, 1), (2, 2), (3, 3 :: int)]) = failureThreshold (New 0 config3)
   \<and> state (RecordFailure_calls [(1, 1), (2, 2), (3, 3)] (New 0 config3)) = StateOpen
   \<and> state (RecordFailure_calls [(1, 1), (2, 2)] (New 0 config3)) = StateClosed"
proof -
  have h: "state (New 0 config3) = StateClosed" "failureCount (New 0 config3) = 0"
    "0 < failureThreshold (New 0 config3)"
    "int (length [(1, 1), (2, 2), (3, 3 :: int)]) = failureThreshold (New 0 config3)"
    by (simp_all add: New_def config3_def)
  from C1_breaker_threshold [OF h] h show ?thesis
    by simp
qed

lemma AllowRequest_calls_early:
  assumes "state cb = StateOpen" "0 < timeout cb" "timeout cb \<le> maxDuration"
    and "\<forall>p \<in> set es. fst p < lastFailure cb + timeout cb"
  shows "AllowRequest_calls es cb = (replicate (length es) False, cb)"
  using assms(4)
proof (induction es)
  case Nil
  then show ?case by simp
next
  case (Cons p es)
  obtain now tc where p: "p = (now, tc)" by (cases p)
  with Cons.prems have "now < lastFailure cb + timeout cb" by simp
  with assms(2,3) have "\<not> timeout cb \<le> time_Since now (lastFailure cb)"
    by (simp add: time_Since_ge_iff)
  with assms(1) have "AllowRequest now tc cb = (False, cb)"
    by (simp add: AllowRequest_def)
  with Cons show ?case by (simp add: p)
qed

text \<open>
  C2. Let the breaker be Open with last recorded failure at \<open>T\<close> and open-timeout \<open>D\<close> (a
  positive duration). Every \<open>AllowRequest\<close> call at an instant before \<open>T + D\<close> returns false
  and leaves the breaker as it is, hence Open; the first call at or after \<open>T + D\<close> (made after
  any number of such early calls) returns true and moves the breaker to HalfOpen. In Closed
  and in HalfOpen \<open>AllowRequest\<close> returns true and leaves the breaker unchanged.
\<close>

theorem C2_open_timeout_gate:
  assumes "state cb = StateOpen" and "lastFailure cb = T" and "timeout cb = D"
    and "0 < D" and "D \<le> maxDuration"
    and early: "\<forall>p \<in> set es. fst p < T + D"
    and late: "T + D \<le> now"
  shows "AllowRequest_calls es cb = (replicate (length es) False, cb)
       \<and> fst (AllowRequest_calls (es @ [(now, tc)]) cb) = replicate (length es) False @ [True]
       \<and> state (snd (AllowRequest_calls (es @ [(now, tc)]) cb)) = StateHalfOpen
       \<and> AllowRequest ta tb (c\<lparr>state := StateClosed\<rparr>) = (True, c\<lparr>state := StateClosed\<rparr>)
       \<and> AllowRequest ta tb (c\<lparr>state := StateHalfOpen\<rparr>) = (True, c\<lparr>state := StateHalfOpen\<rparr>)"
proof -
  have app: "AllowRequest_calls (xs @ ys) b =
      (case AllowRequest_calls xs b of (oks, b1) \<Rightarrow>
         (case AllowRequest_calls ys b1 of (oks', b2) \<Rightarrow> (oks @ oks', b2)))" for xs ys b
    by (induction xs arbitrary: b) (auto split: prod.splits)
  from assms have e: "AllowRequest_calls es cb = (replicate (length es) False, cb)"
    by (intro AllowRequest_calls_early) simp_all
  from assms have "timeout cb \<le> time_Since now (lastFailure cb)"
    by (simp add: time_Since_ge_iff)
  with assms(1) have l: "AllowRequest now tc cb = (True, transitionTo tc StateHalfOpen cb)"
    by (simp add: AllowRequest_def)
  have "state (transitionTo tc StateHalfOpen cb) = StateHalfOpen"
    using assms(1) by (simp add: transitionTo_def)
  with e l show ?thesis
    by (simp add: app AllowRequest_def)
qed

theorem C2_open_timeout_gate_witness:
  "state open3 = StateOpen \<and> lastFailure open3 = 5 * Second \<and> timeout open3 = 30 * Second
   \<and> 0 < 30 * Second \<and> 30 * Second \<le> maxDuration
   \<and> 6 * Second < 5 * Second + 30 * Second \<and> 34 * Second < 5 * Second + 30 * Second
   \<and> 5 * Second + 30 * Second \<le> 35 * Second
   \<and> AllowRequest_calls [(6 * Second, 6 * Second), (34 * Second, 34 * Second)] open3
       = ([False, False], open3)
   \<and> fst (AllowRequest_calls
        [(6 * Second, 6 * Second), (34 * Second, 34 * Second), (35 * Second, 36 * Second)] open3)
       = [False, False, True]
   \<and> state (snd (AllowRequest_calls
        [(6 * Second, 6 * Second), (34 * Second, 34 * Second), (35 * Second, 36 * Second)] open3))
       = StateHalfOpen
   \<and> AllowRequest 0 0 ((New 0 config3)\<lparr>state := StateClosed\<rparr>)
       = (True, (New 0 config3)\<lparr>state := StateClosed\<rparr>)
   \<and> AllowRequest 0 0 ((New 0 config3)\<lparr>state := StateHalfOpen\<rparr>)
       = (True, (New 0 config3)\<lparr>state := StateHalfOpen\<rparr>)"
proof -
  have h: "state open3 = StateOpen" "lastFailure open3 = 5 * Second"
    "timeout open3 = 30 * Second" "0 < 30 * Second" "30 * Second \<le> maxDuration"
    "\<forall>p \<in> set [(6 * Second, 6 * Second), (34 * Second, 34 * Second)].
         fst p < 5 * Second + 30 * Second"
    "5 * Second + 30 * Second \<le> 35 * Second"
    by (simp_all add: open3_def New_def config3_def Second_def maxDuration_def)
  from C2_open_timeout_gate [OF h, where tc = "36 * Second" and ta = 0 and tb = 0
      and c = "New 0 config3"] h
  show ?thesis
    by simp
qed

lemma RecordSuccess_calls_halfOpen_below:
  assumes "state cb = StateHalfOpen" "successCount cb + int (length ss) < successThreshold cb"
  shows "RecordSuccess_calls ss cb = cb\<lparr> successCount := successCount cb + int (length ss) \<rparr>"
  using assms
proof (induction ss arbitrary: cb)
  case Nil
  then show ?case by simp
next
  case (Cons tc ss)
  let ?cb1 = "cb\<lparr> successCount := successCount cb + 1 \<rparr>"
  from Cons.prems have step: "RecordSuccess tc cb = ?cb1"
    by (simp add: RecordSuccess_def Let_def)
  from Cons.prems have "state ?cb1 = StateHalfOpen"
    and "successCount ?cb1 + int (length ss) < successThreshold ?cb1"
    by simp_all
  from Cons.IH [OF this] show ?case
    by (simp add: step add.assoc)
qed

lemma RecordFailure_halfOpen:
  "state cb = StateHalfOpen \<Longrightarrow> state (RecordFailure now tc cb) = StateOpen"
  by (simp add: RecordFailure_def Let_def transitionTo_def)

text \<open>
  C3. From HalfOpen a single \<open>RecordFailure\<close> call moves the breaker to Open, whatever its
  success counter is; in particular after any number of successes recorded in HalfOpen that
  stays below the success threshold (the breaker is then still HalfOpen and has counted
  them).
\<close>

theorem C3_halfOpen_fragility:
  assumes "state cb = StateHalfOpen"
    and "successCount cb + int (length ss) < successThreshold cb"
  shows "state (RecordSuccess_calls ss cb) = StateHalfOpen
       \<and> successCount (RecordSuccess_calls ss cb) = successCount cb + int (length ss)
       \<and> state (RecordFailure now tc (RecordSuccess_calls ss cb)) = StateOpen
       \<and> state (RecordFailure now tc (c\<lparr> state := StateHalfOpen, successCount := n \<rparr>))
           = StateOpen"
proof -
  from RecordSuccess_calls_halfOpen_below [OF assms] assms(1)
  have "state (RecordSuccess_calls ss cb) = StateHalfOpen"
    and "successCount (RecordSuccess_calls ss cb) = successCount cb + int (length ss)"
    by simp_all
  then show ?thesis
    by (simp add: RecordFailure_halfOpen)
qed

theorem C3_halfOpen_fragility_witness:
  "state halfOpen3 = StateHalfOpen
   \<and> successCount halfOpen3 + int (length [40 * Second]) < successThreshold halfOpen3
   \<and> state (RecordSuccess_calls [40 * Second] halfOpen3) = StateHalfOpen
   \<and> successCount (RecordSuccess_calls [40 * Second] halfOpen3) = 1
   \<and> state (RecordFailure (41 * Second) (41 * Second)
        (RecordSuccess_calls [40 * Second] halfOpen3)) = StateOpen
   \<and> state (RecordFailure (41 * Second) (41 * Second)
        (halfOpen3\<lparr> state := StateHalfOpen, successCount := 7 \<rparr>)) = StateOpen"
proof -
  have h: "state halfOpen3 = StateHalfOpen"
    "successCount halfOpen3 + int (length [40 * Second]) < successThreshold halfOpen3"
    by (simp_all add: halfOpen3_def New_def config3_def)
  have "successCount halfOpen3 = 0"
    by (simp add: halfOpen3_def New_def)
  with C3_halfOpen_fragility [OF h, where now = "41 * Second" and tc = "41 * Second"
      and c = halfOpen3 and n = 7] h
  show ?thesis
    by simp
qed

text \<open>
  C4. \<open>Execute\<close> on a closure \<open>fn\<close>, instrumented with the number \<open>n\<close> of its invocations so
  far. When \<open>AllowRequest\<close> returns false the result is \<open>ErrCircuitOpen\<close>, the world and the
  invocation count are as before (\<open>fn\<close> has not run) and the breaker is as \<open>AllowRequest\<close>
  left it. When it returns true, \<open>fn\<close> has run exactly once on the world, the breaker
  has then taken \<open>RecordFailure\<close> if \<open>fn\<close> returned an error and \<open>RecordSuccess\<close> if it
  returned nil, and the result is what \<open>fn\<close> returned.
\<close>

theorem C4_Execute:
  "Execute ta tt tf tr (counted fn) cb (n, w) =
     (if fst (AllowRequest ta tt cb)
      then (fst (fn w),
            (case fst (fn w) of
               Some err \<Rightarrow> RecordFailure tf tr (snd (AllowRequest ta tt cb))
             | None \<Rightarrow> RecordSuccess tr (snd (AllowRequest ta tt cb))),
            (Suc n, snd (fn w)))
      else (Some ErrCircuitOpen, snd (AllowRequest ta tt cb), (n, w)))"
  by (cases "AllowRequest ta tt cb"; cases "fn w")
     (auto simp: Execute_def counted_def split: option.splits)

theorem C4_Execute_witness:
  "Execute (6 * Second) 0 0 0 (counted (\<lambda>w :: unit. (None :: unit error option, w))) open3 (0, ())
     = (Some ErrCircuitOpen, open3, (0, ()))
   \<and> Execute 1 1 2 3 (counted (\<lambda>w :: unit. (Some (CallError ()), w))) (New 0 config3) (0, ())
     = (Some (CallError ()), RecordFailure 2 3 (New 0 config3), (1, ()))
   \<and> Execute 1 1 2 3 (counted (\<lambda>w :: unit. (None :: unit error option, w))) (New 0 config3) (0, ())
     = (None, RecordSuccess 3 (New 0 config3), (1, ()))"
proof -
  have a: "AllowRequest (6 * Second) 0 open3 = (False, open3)"
    by (simp add: AllowRequest_def open3_def New_def config3_def time_Since_def time_Sub_def
        Second_def minDuration_def maxDuration_def)
  have b: "AllowRequest 1 1 (New 0 config3) = (True, New 0 config3)"
    by (simp add: AllowRequest_def New_def)
  from C4_Execute [of "6 * Second" 0 0 0 "\<lambda>w :: unit. (None :: unit error option, w)" open3 0 "()"]
    C4_Execute [of 1 1 2 3 "\<lambda>w :: unit. (Some (CallError ()), w)" "New 0 config3" 0 "()"]
    C4_Execute [of 1 1 2 3 "\<lambda>w :: unit. (None :: unit error option, w)" "New 0 config3" 0 "()"]
  show ?thesis
    by (simp add: a b)
qed

lemmas breaker_defs =
  AllowRequest_def RecordSuccess_def RecordFailure_def Reset_def transitionTo_def

lemma call_halfOpen_failureCount:
  assumes "state cb = StateHalfOpen \<longrightarrow> failureCount cb = 0"
  shows "state (call c cb) = StateHalfOpen \<longrightarrow> failureCount (call c cb) = 0"
  using assms
  by (cases c; cases "state cb") (auto simp: breaker_defs Let_def)

lemma calls_halfOpen_failureCount:
  assumes "state cb = StateHalfOpen \<longrightarrow> failureCount cb = 0"
  shows "state (calls cs cb) = StateHalfOpen \<longrightarrow> failureCount (calls cs cb) = 0"
  using assms
proof (induction cs arbitrary: cb)
  case Nil
  then show ?case by simp
next
  case (Cons c cs)
  from call_halfOpen_failureCount [OF Cons.prems]
  have "state (call c cb) = StateHalfOpen \<longrightarrow> failureCount (call c cb) = 0" .
  from Cons.IH [OF this] show ?case by simp
qed

text \<open>
  Two breakers that are equal, or HalfOpen and equal up to the failure counter, remain so
  after any call.
\<close>

lemma call_failureCount_irrelevant:
  assumes "b1 = b2 \<or> (state b2 = StateHalfOpen \<and> b1 = b2\<lparr> failureCount := x \<rparr>)"
  shows "call c b1 = call c b2
       \<or> (state (call c b2) = StateHalfOpen \<and> call c b1 = (call c b2)\<lparr> failureCount := x \<rparr>)"
  using assms
  by (cases c) (auto simp: breaker_defs Let_def)

lemma calls_failureCount_irrelevant:
  assumes "b1 = b2 \<or> (state b2 = StateHalfOpen \<and> b1 = b2\<lparr> failureCount := x \<rparr>)"
  shows "calls cs b1 = calls cs b2
       \<or> (state (calls cs b2) = StateHalfOpen
           \<and> calls cs b1 = (calls cs b2)\<lparr> failureCount := x \<rparr>)"
  using assms
proof (induction cs arbitrary: b1 b2)
  case Nil
  then show ?case by simp
next
  case (Cons c cs)
  from call_failureCount_irrelevant [OF Cons.prems]
  have "call c b1 = call c b2
      \<or> (state (call c b2) = StateHalfOpen \<and> call c b1 = (call c b2)\<lparr> failureCount := x \<rparr>)" .
  from Cons.IH [OF this] show ?case by simp
qed

lemma call_transition_resets:
  assumes "state (call c b) \<noteq> state b"
  shows "failureCount (call c b) = 0 \<and> successCount (call c b) = 0"
  using assms
  by (cases c; cases "state b") (auto simp: breaker_defs Let_def split: if_splits)

text \<open>
  C8. (1) \<open>transitionTo\<close> towards a state other than the current one sets both counters
  to 0, and so does every call of the breaker's interface (\<open>AllowRequest\<close>,
  \<open>RecordSuccess\<close>, \<open>RecordFailure\<close>, \<open>Reset\<close>) that changes the state: whenever the
  state after the call differs from the state before, both counters are 0 after it.
  (2) In every breaker reached from \<open>New\<close> by calls of its interface, the failure counter
  is 0 whenever the state is HalfOpen: what was counted in Closed (or in Open) is gone.
  (3) The failure counter of a HalfOpen breaker has no influence: started from a HalfOpen
  breaker with its failure counter overwritten by any \<open>x\<close>, every run of calls ends in a
  breaker that differs from the original run's at most in the failure counter, and
  \<open>AllowRequest\<close> answers the same.
\<close>

theorem C8_counters_reset_on_transition:
  "(state cb \<noteq> newState \<longrightarrow>
       state (transitionTo t newState cb) = newState
     \<and> failureCount (transitionTo t newState cb) = 0
     \<and> successCount (transitionTo t newState cb) = 0)
   \<and> (state (calls cs (New t0 cfg)) = StateHalfOpen \<longrightarrow>
       failureCount (calls cs (New t0 cfg)) = 0)
   \<and> (state hb = StateHalfOpen \<longrightarrow>
       (calls ds (hb\<lparr> failureCount := x \<rparr>))\<lparr> failureCount := 0 \<rparr>
         = (calls ds hb)\<lparr> failureCount := 0 \<rparr>
     \<and> fst (AllowRequest now tc (calls ds (hb\<lparr> failureCount := x \<rparr>)))
         = fst (AllowRequest now tc (calls ds hb)))
   \<and> (state (call c b) \<noteq> state b \<longrightarrow>
       failureCount (call c b) = 0 \<and> successCount (call c b) = 0)"
proof (intro conjI impI)
  assume "state (call c b) \<noteq> state b"
  then show "failureCount (call c b) = 0" and "successCount (call c b) = 0"
    using call_transition_resets [of c b] by simp_all
next
  assume "state cb \<noteq> newState"
  then show "state (transitionTo t newState cb) = newState"
    and "failureCount (transitionTo t newState cb) = 0"
    and "successCount (transitionTo t newState cb) = 0"
    by (simp_all add: transitionTo_def)
next
  assume "state (calls cs (New t0 cfg)) = StateHalfOpen"
  moreover have "state (New t0 cfg) = StateHalfOpen \<longrightarrow> failureCount (New t0 cfg) = 0"
    by (simp add: New_def)
  ultimately show "failureCount (calls cs (New t0 cfg)) = 0"
    using calls_halfOpen_failureCount [of "New t0 cfg" cs] by simp
next
  assume h: "state hb = StateHalfOpen"
  then have "hb\<lparr> failureCount := x \<rparr> = hb
      \<or> (state hb = StateHalfOpen \<and> hb\<lparr> failureCount := x \<rparr> = hb\<lparr> failureCount := x \<rparr>)"
    by simp
  from calls_failureCount_irrelevant [OF this, of ds]
  have r: "calls ds (hb\<lparr> failureCount := x \<rparr>) = calls ds hb
      \<or> (state (calls ds hb) = StateHalfOpen
          \<and> calls ds (hb\<lparr> failureCount := x \<rparr>) = (calls ds hb)\<lparr> failureCount := x \<rparr>)" .
  then show "(calls ds (hb\<lparr> failureCount := x \<rparr>))\<lparr> failureCount := 0 \<rparr>
      = (calls ds hb)\<lparr> failureCount := 0 \<rparr>"
    by auto
  have a: "fst (AllowRequest now tc (b\<lparr> failureCount := x \<rparr>)) = fst (AllowRequest now tc b)"
    for b
    by (simp add: AllowRequest_def split: State.splits)
  from r show "fst (AllowRequest now tc (calls ds (hb\<lparr> failureCount := x \<rparr>)))
      = fst (AllowRequest now tc (calls ds hb))"
  proof (elim disjE conjE)
    assume "calls ds (hb\<lparr> failureCount := x \<rparr>) = calls ds hb"
    then show ?thesis by simp
  next
    assume "calls ds (hb\<lparr> failureCount := x \<rparr>) = (calls ds hb)\<lparr> failureCount := x \<rparr>"
    then show ?thesis by (simp only: a)
  qed
qed

theorem C8_counters_reset_on_transition_witness:
  "state (New 0 config3) \<noteq> StateOpen
   \<and> failureCount (transitionTo 1 StateOpen ((New 0 config3)\<lparr> failureCount := 2 \<rparr>)) = 0
   \<and> successCount (transitionTo 1 StateOpen ((New 0 config3)\<lparr> failureCount := 2 \<rparr>)) = 0
   \<and> state (calls [CallRecordFailure 1 1, CallRecordFailure 2 2, CallRecordFailure 3 3,
                    CallAllowRequest (40 * Second) (40 * Second)] (New 0 config3)) = StateHalfOpen
   \<and> failureCount (calls [CallRecordFailure 1 1, CallRecordFailure 2 2, CallRecordFailure 3 3,
                    CallAllowRequest (40 * Second) (40 * Second)] (New 0 config3)) = 0
   \<and> state halfOpen3 = StateHalfOpen
   \<and> (calls [CallRecordSuccess 1, CallRecordFailure 2 2] (halfOpen3\<lparr> failureCount := 2 \<rparr>))
        \<lparr> failureCount := 0 \<rparr>
       = (calls [CallRecordSuccess 1, CallRecordFailure 2 2] halfOpen3)\<lparr> failureCount := 0 \<rparr>
   \<and> fst (AllowRequest 9 9
        (calls [CallRecordSuccess 1, CallRecordFailure 2 2] (halfOpen3\<lparr> failureCount := 2 \<rparr>)))
       = fst (AllowRequest 9 9 (calls [CallRecordSuccess 1, CallRecordFailure 2 2] halfOpen3))
   \<and> state (call (CallRecordFailure 3 3) ((New 0 config3)\<lparr> failureCount := 2 \<rparr>)) = StateOpen
   \<and> failureCount (call (CallRecordFailure 3 3) ((New 0 config3)\<lparr> failureCount := 2 \<rparr>)) = 0
   \<and> successCount (call (CallRecordFailure 3 3) ((New 0 config3)\<lparr> failureCount := 2 \<rparr>)) = 0"
proof -
  have o: "state (call (CallRecordFailure 3 3) ((New 0 config3)\<lparr> failureCount := 2 \<rparr>))
      = StateOpen"
    by (simp add: breaker_defs New_def config3_def Let_def)
  have h: "state ((New 0 config3)\<lparr> failureCount := 2 \<rparr>) \<noteq> StateOpen"
    "state (calls [CallRecordFailure 1 1, CallRecordFailure 2 2, CallRecordFailure 3 3,
                    CallAllowRequest (40 * Second) (40 * Second)] (New 0 config3)) = StateHalfOpen"
    "state halfOpen3 = StateHalfOpen"
    by (simp_all add: breaker_defs New_def config3_def halfOpen3_def Let_def
        time_Since_def time_Sub_def Second_def minDuration_def maxDuration_def)
  from C8_counters_reset_on_transition [of "(New 0 config3)\<lparr> failureCount := 2 \<rparr>" StateOpen 1
      "[CallRecordFailure 1 1, CallRecordFailure 2 2, CallRecordFailure 3 3,
        CallAllowRequest (40 * Second) (40 * Second)]" 0 config3 halfOpen3
      "[CallRecordSuccess 1, CallRecordFailure 2 2]" 2 9 9 "CallRecordFailure 3 3"
      "(New 0 config3)\<lparr> failureCount := 2 \<rparr>"] h o
  show ?thesis
    by (simp add: New_def)
qed

lemma RecordSuccess_calls_closed:
  assumes "state cb = StateClosed"
  shows "RecordSuccess_calls ts cb = (if ts = [] then cb else cb\<lparr> failureCount := 0 \<rparr>)"
  using assms
  by (induction ts arbitrary: cb) (auto simp: RecordSuccess_def)

text \<open>
  C9. \<open>transitionTo\<close> towards the current state returns the breaker unchanged. Any number
  of \<open>RecordSuccess\<close> calls on a Closed breaker leaves it Closed, spawns no state-change
  notification, keeps \<open>lastStateChange\<close> and the success counter, and changes nothing but
  the failure counter, which \<open>RecordSuccess\<close> itself sets to 0.
\<close>

theorem C9_idempotent_transition:
  "transitionTo t (state cb) cb = cb
   \<and> (state cb = StateClosed \<longrightarrow>
        RecordSuccess_calls ts cb = (if ts = [] then cb else cb\<lparr> failureCount := 0 \<rparr>)
      \<and> state (RecordSuccess_calls ts cb) = StateClosed
      \<and> notified (RecordSuccess_calls ts cb) = notified cb
      \<and> lastStateChange (RecordSuccess_calls ts cb) = lastStateChange cb
      \<and> successCount (RecordSuccess_calls ts cb) = successCount cb)"
proof (intro conjI impI)
  show "transitionTo t (state cb) cb = cb"
    by (simp add: transitionTo_def)
next
  assume c: "state cb = StateClosed"
  then show eq: "RecordSuccess_calls ts cb = (if ts = [] then cb else cb\<lparr> failureCount := 0 \<rparr>)"
    by (rule RecordSuccess_calls_closed)
  from c show "state (RecordSuccess_calls ts cb) = StateClosed"
    and "notified (RecordSuccess_calls ts cb) = notified cb"
    and "lastStateChange (RecordSuccess_calls ts cb) = lastStateChange cb"
    and "successCount (RecordSuccess_calls ts cb) = successCount cb"
    by (simp_all add: eq)
qed

theorem C9_idempotent_transition_witness:
  "transitionTo 5 StateClosed (New 0 config3) = New 0 config3
   \<and> state (New 0 config3) = StateClosed
   \<and> RecordSuccess_calls [1, 2, 3] ((New 0 config3)\<lparr> failureCount := 2 \<rparr>) = New 0 config3
   \<and> notified (RecordSuccess_calls [1, 2, 3] ((New 0 config3)\<lparr> failureCount := 2 \<rparr>)) = []
   \<and> lastStateChange (RecordSuccess_calls [1, 2, 3] ((New 0 config3)\<lparr> failureCount := 2 \<rparr>)) = 0"
proof -
  have h: "state ((New 0 config3)\<lparr> failureCount := 2 \<rparr>) = StateClosed"
    "state (New 0 config3) = StateClosed"
    by (simp_all add: New_def)
  from C9_idempotent_transition [of 5 "New 0 config3" "[]"]
    C9_idempotent_transition [of 5 "(New 0 config3)\<lparr> failureCount := 2 \<rparr>" "[1, 2, 3]"] h
  show ?thesis
    by (simp add: New_def)
qed

lemma RecordSuccess_calls_open:
  assumes "state cb = StateOpen"
  shows "RecordSuccess_calls ts cb = cb"
  using assms
  by (induction ts) (auto simp: RecordSuccess_def)

text \<open>
  C10. On an Open breaker \<open>RecordSuccess\<close>, once or repeatedly, returns the breaker
  unchanged in every field. A call of the interface leaves the breaker outside Open only
  if it is \<open>AllowRequest\<close> with the timeout elapsed since the last failure (the breaker is
  then HalfOpen) or \<open>Reset\<close> (the breaker is then Closed); \<open>RecordFailure\<close> keeps it Open.
\<close>

theorem C10_RecordSuccess_in_open:
  assumes "state cb = StateOpen"
  shows "RecordSuccess tc cb = cb
       \<and> RecordSuccess_calls ts cb = cb
       \<and> state (RecordFailure now tc cb) = StateOpen
       \<and> (state (call c cb) \<noteq> StateOpen \<longrightarrow>
            (case c of
               CallAllowRequest ta tb \<Rightarrow>
                 timeout cb \<le> time_Since ta (lastFailure cb)
                 \<and> state (call c cb) = StateHalfOpen
             | CallReset tb \<Rightarrow> state (call c cb) = StateClosed
             | CallRecordSuccess tb \<Rightarrow> False
             | CallRecordFailure ta tb \<Rightarrow> False))"
  using assms RecordSuccess_calls_open [OF assms, of ts]
  by (cases c) (auto simp: breaker_defs Let_def)

theorem C10_RecordSuccess_in_open_witness:
  "state open3 = StateOpen
   \<and> RecordSuccess 7 open3 = open3
   \<and> RecordSuccess_calls [7, 8] open3 = open3
   \<and> state (RecordFailure 7 7 open3) = StateOpen
   \<and> state (call (CallReset 9) open3) \<noteq> StateOpen
   \<and> state (call (CallReset 9) open3) = StateClosed"
proof -
  have h: "state open3 = StateOpen" "state (call (CallReset 9) open3) \<noteq> StateOpen"
    by (simp_all add: open3_def New_def breaker_defs)
  from C10_RecordSuccess_in_open [OF h(1), of 7 "[7, 8]" 7 "CallReset 9"] h
  show ?thesis
    by (simp add: RecordSuccess_def)
qed

section \<open>Properties of the gateway\<close>


lemma inspect_False: "\<not> fst (inspect t w) \<Longrightarrow> snd (inspect t w) = w"
  by (auto simp: inspect_def AllowRequest_def split: State.splits if_splits)

lemma inspect_Healthy: "Healthy (snd (inspect t w)) = Healthy w"
  by (simp add: inspect_def split: prod.splits)

lemma inspect_True_stays:
  assumes "fst (inspect t w)"
  shows "fst (inspect t' (snd (inspect t w)))"
  using assms
  by (auto simp: inspect_def AllowRequest_def transitionTo_def split: State.splits if_splits)

lemma scan_idx_bound:
  fixes i n s :: "32 word"
  assumes "i < n"
  shows "unat ((s + i) mod n) < unat n"
proof -
  from assms have "0 < n"
    by unat_arith
  then have "(s + i) mod n < n"
    by (rule word_mod_less_divisor)
  then show ?thesis
    by (simp add: word_less_nat_alt)
qed

lemma scanWorkers_bounds:
  assumes "unat n \<le> length ws"
  shows "fst (scanWorkers clk s n i ws seen) \<noteq> IndexPanic
       \<and> length (fst (snd (scanWorkers clk s n i ws seen))) = length ws
       \<and> length (snd (snd (scanWorkers clk s n i ws seen))) \<le> length seen + (unat n - unat i)"
  using assms
proof (induction clk s n i ws seen rule: scanWorkers.induct)
  case (1 clk s n i ws seen)
  show ?case
  proof (cases "i < n")
    case False
    then show ?thesis
      by (simp add: scanWorkers.simps [of clk s n i ws seen])
  next
    case True
    let ?idx = "unat ((s + i) mod n)"
    from True have idx: "?idx < length ws"
      using scan_idx_bound [OF True, of s] "1.prems" by simp
    from True have suc: "unat (i + 1) = Suc (unat i)" by unat_arith
    from True have lt: "unat i < unat n" by (simp add: word_less_nat_alt)
    show ?thesis
    proof (cases "fst (inspect (clk i) (ws ! ?idx))")
      case sel: True
      with True idx lt show ?thesis
        by (simp add: scanWorkers.simps [of clk s n i ws seen] Let_def)
    next
      case rej: False
      have len: "unat n \<le> length (ws[?idx := snd (inspect (clk i) (ws ! ?idx))])"
        using "1.prems" by simp
      let ?r = "scanWorkers clk s n (i + 1) (ws[?idx := snd (inspect (clk i) (ws ! ?idx))])
                (seen @ [?idx])"
      from "1.IH" [OF True refl _ rej len] idx
      have c: "fst ?r \<noteq> IndexPanic \<and> length (fst (snd ?r)) = length ws
          \<and> length (snd (snd ?r)) \<le> length (seen @ [?idx]) + (unat n - unat (i + 1))"
        by simp
      then have "length (snd (snd ?r)) \<le> Suc (length seen) + (unat n - Suc (unat i))"
        by (simp add: suc)
      with lt have "length (snd (snd ?r)) \<le> length seen + (unat n - unat i)"
        by linarith
      with c have ih: "fst ?r \<noteq> IndexPanic" "length (fst (snd ?r)) = length ws"
        "length (snd (snd ?r)) \<le> length seen + (unat n - unat i)"
        by simp_all
      have step: "scanWorkers clk s n i ws seen =
          scanWorkers clk s n (i + 1) (ws[?idx := snd (inspect (clk i) (ws ! ?idx))])
            (seen @ [?idx])"
        using True idx rej by (subst scanWorkers.simps) (simp add: Let_def)
      from ih show ?thesis
        by (simp only: step simp_thms)
    qed
  qed
qed


lemma fst_inspect:
  "fst (inspect t w) \<longleftrightarrow> Healthy w \<and> fst (AllowRequest (fst t) (snd t) (CB w))"
  by (simp add: inspect_def split: prod.splits)

lemma scanWorkers_none:
  assumes "unat n \<le> length ws" and "\<forall>w \<in> set ws. \<forall>j. \<not> fst (inspect (clk j) w)"
  shows "fst (scanWorkers clk s n i ws seen) = SelectError ''all workers are unavailable''
       \<and> fst (snd (scanWorkers clk s n i ws seen)) = ws"
  using assms
proof (induction clk s n i ws seen rule: scanWorkers.induct)
  case (1 clk s n i ws seen)
  show ?case
  proof (cases "i < n")
    case False
    then show ?thesis
      by (subst (1 2) scanWorkers.simps) simp
  next
    case True
    let ?idx = "unat ((s + i) mod n)"
    from True have idx: "?idx < length ws"
      using scan_idx_bound [OF True, of s] "1.prems" by simp
    then have "ws ! ?idx \<in> set ws" by simp
    with "1.prems" have rej: "\<not> fst (inspect (clk i) (ws ! ?idx))" by blast
    then have same: "ws[?idx := snd (inspect (clk i) (ws ! ?idx))] = ws"
      by (simp add: inspect_False)
    have step: "scanWorkers clk s n i ws seen = scanWorkers clk s n (i + 1) ws (seen @ [?idx])"
      using True idx rej same by (subst scanWorkers.simps) (simp add: Let_def)
    from "1.IH" [OF True refl _ rej] idx "1.prems" same
    have "fst (scanWorkers clk s n (i + 1) ws (seen @ [?idx]))
            = SelectError ''all workers are unavailable''
        \<and> fst (snd (scanWorkers clk s n (i + 1) ws (seen @ [?idx]))) = ws"
      by simp
    then show ?thesis
      by (simp only: step simp_thms)
  qed
qed

lemma unat_workerCount_le: "unat (of_nat (length ws) :: 32 word) \<le> length ws"
  by (simp add: unat_of_nat)

lemma selectWorker_unfold:
  assumes "workers g \<noteq> []"
    and "scanWorkers clk (workerIndex g) (of_nat (length (workers g))) 0 (workers g) []
           = (r, ws, seen)"
  shows "selectWorker clk g = (r, g\<lparr> workers := ws, workerIndex := workerIndex g + 1 \<rparr>, seen)"
  using assms by (simp add: selectWorker_def Let_def)

lemma selectWorker_cursor:
  assumes "workers g \<noteq> []"
  shows "workerIndex (fst (snd (selectWorker clk g))) = workerIndex g + 1
       \<and> length (snd (snd (selectWorker clk g))) \<le> length (workers g)
       \<and> length (workers (fst (snd (selectWorker clk g)))) = length (workers g)
       \<and> fst (selectWorker clk g) \<noteq> IndexPanic"
proof -
  obtain r ws seen
    where sc: "scanWorkers clk (workerIndex g) (of_nat (length (workers g))) 0 (workers g) []
           = (r, ws, seen)"
    by (cases "scanWorkers clk (workerIndex g) (of_nat (length (workers g))) 0 (workers g) []")
  from scanWorkers_bounds [OF unat_workerCount_le [of "workers g"], where clk = clk and s = "workerIndex g"
      and i = 0 and seen = "[]"]
  have "r \<noteq> IndexPanic" "length ws = length (workers g)" "length seen \<le> length (workers g)"
    using unat_workerCount_le [of "workers g"] by (simp_all add: sc)
  then show ?thesis
    by (simp add: selectWorker_unfold [OF assms sc])
qed

lemma selectWorker_none:
  assumes "workers g \<noteq> []"
    and "\<forall>w \<in> set (workers g). \<forall>j. \<not> fst (inspect (clk j) w)"
  shows "fst (selectWorker clk g) = SelectError ''all workers are unavailable''
       \<and> fst (snd (selectWorker clk g)) = g\<lparr> workerIndex := workerIndex g + 1 \<rparr>"
proof -
  obtain r ws seen
    where sc: "scanWorkers clk (workerIndex g) (of_nat (length (workers g))) 0 (workers g) []
           = (r, ws, seen)"
    by (cases "scanWorkers clk (workerIndex g) (of_nat (length (workers g))) 0 (workers g) []")
  from scanWorkers_none [OF unat_workerCount_le [of "workers g"] assms(2), where s = "workerIndex g"
      and i = 0 and seen = "[]"]
  have "r = SelectError ''all workers are unavailable''" "ws = workers g"
    by (simp_all add: sc)
  then show ?thesis
    by (simp add: selectWorker_unfold [OF assms(1) sc])
qed

lemma unat_workerCount: "N < 2 ^ 32 \<Longrightarrow> unat (of_nat N :: 32 word) = N"
  by (simp add: unat_of_nat)

lemma selectWorker_first:
  assumes N: "length (workers g) = N" "0 < N" "N < 2 ^ 32"
    and el: "fst (inspect (clk 0) (workers g ! (unat (workerIndex g) mod N)))"
  shows "selectWorker clk g =
      (Selected (unat (workerIndex g) mod N),
       g\<lparr> workers := (workers g)[unat (workerIndex g) mod N :=
               snd (inspect (clk 0) (workers g ! (unat (workerIndex g) mod N)))],
           workerIndex := workerIndex g + 1 \<rparr>,
       [unat (workerIndex g) mod N])"
proof -
  let ?n = "of_nat N :: 32 word"
  let ?k = "unat (workerIndex g) mod N"
  have un: "unat ?n = N" using N(3) by (rule unat_workerCount)
  with N(2) have pos: "0 < ?n" by (simp add: word_less_nat_alt)
  have idx: "unat ((workerIndex g + 0) mod ?n) = ?k"
    by (simp add: unat_mod un)
  from N(2) have k: "?k < N" by simp
  have "scanWorkers clk (workerIndex g) ?n 0 (workers g) [] =
      (Selected ?k, (workers g)[?k := snd (inspect (clk 0) (workers g ! ?k))], [?k])"
    using pos idx k el N(1) by (subst scanWorkers.simps) (simp add: Let_def)
  moreover from N have "workers g \<noteq> []" by auto
  ultimately show ?thesis
    using N(1,2) by (simp add: selectWorker_def Let_def)
qed

lemma selectWorker_calls_eligible:
  assumes "length (workers g) = N" "0 < N" "N < 2 ^ 32"
    and "unat (workerIndex g) + length clks \<le> 2 ^ 32"
    and "\<forall>w \<in> set (workers g). \<forall>clk \<in> set clks. fst (inspect (clk 0) w)"
  shows "fst (selectWorker_calls clks g) =
           map (\<lambda>j. (Selected ((unat (workerIndex g) + j) mod N),
                      [(unat (workerIndex g) + j) mod N])) [0..<length clks]
       \<and> workerIndex (snd (selectWorker_calls clks g)) = workerIndex g + of_nat (length clks)"
  using assms
proof (induction clks arbitrary: g)
  case Nil
  then show ?case by simp
next
  case (Cons clk clks)
  let ?c = "workerIndex g"
  let ?k = "unat ?c mod N"
  let ?w = "snd (inspect (clk 0) (workers g ! ?k))"
  let ?g1 = "g\<lparr> workers := (workers g)[?k := ?w], workerIndex := ?c + 1 \<rparr>"
  from Cons.prems have k: "?k < length (workers g)" by simp
  then have mem: "workers g ! ?k \<in> set (workers g)" by simp
  with Cons.prems(5) have el: "fst (inspect (clk 0) (workers g ! ?k))" by simp
  from selectWorker_first [where clk = clk, OF Cons.prems(1-3) el]
  have sel: "selectWorker clk g = (Selected ?k, ?g1, [?k])" .
  show ?case
  proof (cases "clks = []")
    case True
    then show ?thesis by (simp add: sel)
  next
    case False
    with Cons.prems(4) have "unat ?c + 1 < 2 ^ 32"
      by (cases clks) simp_all
    then have "unat ?c + unat (1 :: 32 word) < 2 ^ LENGTH(32)"
      by simp
    then have suc: "unat (?c + 1) = unat ?c + 1"
      by (simp only: unat_add_lem [THEN iffD1] unat_1)
    have len1: "length (workers ?g1) = N" using Cons.prems(1) by simp
    have idx1: "unat (workerIndex ?g1) + length clks \<le> 2 ^ 32"
      using Cons.prems(4) suc by simp
    have el1: "\<forall>w \<in> set (workers ?g1). \<forall>clk' \<in> set clks. fst (inspect (clk' 0) w)"
    proof (intro ballI)
      fix w clk' assume w: "w \<in> set (workers ?g1)" and c: "clk' \<in> set clks"
      from w have "w = ?w \<or> w \<in> set (workers g)"
        using set_update_subset_insert [of "workers g" ?k ?w] by auto
      then show "fst (inspect (clk' 0) w)"
      proof
        assume "w = ?w"
        with el show ?thesis by (simp add: inspect_True_stays)
      next
        assume "w \<in> set (workers g)"
        with Cons.prems(5) c show ?thesis by simp
      qed
    qed
    from Cons.IH [OF len1 Cons.prems(2,3) idx1 el1]
    have ih: "fst (selectWorker_calls clks ?g1) =
             map (\<lambda>j. (Selected ((unat ?c + 1 + j) mod N), [(unat ?c + 1 + j) mod N]))
               [0..<length clks]"
      "workerIndex (snd (selectWorker_calls clks ?g1)) = ?c + 1 + of_nat (length clks)"
      by (simp_all add: suc)
    have shift: "map (\<lambda>j. (Selected ((unat ?c + j) mod N), [(unat ?c + j) mod N]))
          [0..<length (clk # clks)] =
        (Selected ?k, [?k]) #
        map (\<lambda>j. (Selected ((unat ?c + 1 + j) mod N), [(unat ?c + 1 + j) mod N]))
          [0..<length clks]"
      by (simp add: upt_conv_Cons map_Suc_upt [symmetric] del: upt_Suc)
    show ?thesis
      using ih by (simp only: shift) (auto simp: sel add.assoc split: prod.splits)
  qed
qed

lemma map_mod_rotate:
  assumes "0 < N"
  shows "map (\<lambda>j. (a + j) mod N) [0..<N] = rotate (a mod N) [0..<N]"
proof (rule nth_equalityI)
  show "length (map (\<lambda>j. (a + j) mod N) [0..<N]) = length (rotate (a mod N) [0..<N])"
    by simp
next
  fix i assume "i < length (map (\<lambda>j. (a + j) mod N) [0..<N])"
  then have i: "i < N" by simp
  with assms have "rotate (a mod N) [0..<N] ! i = (a mod N + i) mod N"
    by (simp add: nth_rotate)
  also have "\<dots> = (a + i) mod N"
    by (simp add: mod_add_left_eq)
  finally show "map (\<lambda>j. (a + j) mod N) [0..<N] ! i = rotate (a mod N) [0..<N] ! i"
    using i by simp
qed

text \<open>
  C5, as the code has it. Let the pool have \<open>N\<close> workers (\<open>0 < N < 2^32\<close>), all of them
  eligible (liveness flag true and breaker permitting) at the instants of the calls, and
  let the cursor \<open>c\<close> not wrap around during the calls (\<open>c + N \<le> 2^32\<close>). Then \<open>N\<close>
  consecutive calls of \<open>selectWorker\<close> select the workers of indices
  \<open>rotate (c mod N) [0..<N]\<close>: each worker exactly once, in pool order, starting from the
  position of the cursor before the first call (the scan starts at \<^verbatim>\<open>Add(1) - 1\<close>); each
  call inspects the one slot it selects, and the cursor ends \<open>N\<close> further. On any non-empty
  pool \<open>h\<close>, whoever is eligible, a call advances the cursor by exactly one and inspects at
  most as many slots as the pool has.
\<close>

theorem C5_round_robin:
  assumes "length (workers g) = N" and "0 < N" and "N < 2 ^ 32"
    and "unat (workerIndex g) + N \<le> 2 ^ 32"
    and "length clks = N"
    and "\<forall>w \<in> set (workers g). \<forall>clk \<in> set clks.
           Healthy w \<and> fst (AllowRequest (fst (clk 0)) (snd (clk 0)) (CB w))"
  shows "map fst (fst (selectWorker_calls clks g))
           = map Selected (rotate (unat (workerIndex g) mod N) [0..<N])
       \<and> map snd (fst (selectWorker_calls clks g))
           = map (\<lambda>k. [k]) (rotate (unat (workerIndex g) mod N) [0..<N])
       \<and> distinct (rotate (unat (workerIndex g) mod N) [0..<N])
       \<and> set (rotate (unat (workerIndex g) mod N) [0..<N]) = {0..<N}
       \<and> workerIndex (snd (selectWorker_calls clks g)) = workerIndex g + of_nat N
       \<and> (workers h \<noteq> [] \<longrightarrow>
            workerIndex (fst (snd (selectWorker clk h))) = workerIndex h + 1
          \<and> length (snd (snd (selectWorker clk h))) \<le> length (workers h))"
proof -
  let ?c = "unat (workerIndex g)"
  from assms(6) have el: "\<forall>w \<in> set (workers g). \<forall>clk \<in> set clks. fst (inspect (clk 0) w)"
    by (simp add: fst_inspect)
  from assms(4,5) have "?c + length clks \<le> 2 ^ 32" by simp
  from selectWorker_calls_eligible [OF assms(1-3) this el]
  have r: "fst (selectWorker_calls clks g) =
      map (\<lambda>j. (Selected ((?c + j) mod N), [(?c + j) mod N])) [0..<N]"
    and c: "workerIndex (snd (selectWorker_calls clks g)) = workerIndex g + of_nat N"
    by (simp_all add: assms(5))
  have "map fst (fst (selectWorker_calls clks g))
      = map Selected (map (\<lambda>j. (?c + j) mod N) [0..<N])"
    by (simp add: r comp_def)
  then have a: "map fst (fst (selectWorker_calls clks g))
      = map Selected (rotate (?c mod N) [0..<N])"
    by (simp only: map_mod_rotate [OF assms(2)])
  have "map snd (fst (selectWorker_calls clks g))
      = map (\<lambda>k. [k]) (map (\<lambda>j. (?c + j) mod N) [0..<N])"
    by (simp add: r comp_def)
  then have b: "map snd (fst (selectWorker_calls clks g))
      = map (\<lambda>k. [k]) (rotate (?c mod N) [0..<N])"
    by (simp only: map_mod_rotate [OF assms(2)])
  have d: "distinct (rotate (?c mod N) [0..<N])" "set (rotate (?c mod N) [0..<N]) = {0..<N}"
    by simp_all
  from a b c d show ?thesis
    using selectWorker_cursor [of h clk] by simp
qed

theorem C5_round_robin_witness:
  "length (workers gateway3) = 3 \<and> unat (workerIndex gateway3) + 3 \<le> 2 ^ 32
   \<and> list_all Healthy (workers gateway3)
   \<and> list_all (\<lambda>w. fst (AllowRequest (fst (clock0 0)) (snd (clock0 0)) (CB w)))
         (workers gateway3)
   \<and> map fst (fst (selectWorker_calls [clock0, clock0, clock0] gateway3))
       = [Selected 1, Selected 2, Selected 0]
   \<and> map snd (fst (selectWorker_calls [clock0, clock0, clock0] gateway3)) = [[1], [2], [0]]
   \<and> workerIndex (snd (selectWorker_calls [clock0, clock0, clock0] gateway3)) = 7
   \<and> workers gatewayDown \<noteq> []
   \<and> workerIndex (fst (snd (selectWorker clock0 gatewayDown))) = 8
   \<and> length (snd (snd (selectWorker clock0 gatewayDown))) \<le> 2"
proof -
  have h: "length (workers gateway3) = 3" "0 < (3 :: nat)" "(3 :: nat) < 2 ^ 32"
    "unat (workerIndex gateway3) + 3 \<le> 2 ^ 32"
    "length [clock0, clock0, clock0] = 3"
    "\<forall>w \<in> set (workers gateway3). \<forall>clk \<in> set [clock0, clock0, clock0].
         Healthy w \<and> fst (AllowRequest (fst (clk 0)) (snd (clk 0)) (CB w))"
    by (simp_all add: gateway3_def pool3_def createWorker_def New_def AllowRequest_def)
  have d: "workers gatewayDown \<noteq> []" "length (workers gatewayDown) = 2"
    "workerIndex gatewayDown = 7"
    by (simp_all add: gatewayDown_def)
  have rot: "rotate (unat (workerIndex gateway3) mod 3) [0..<3] = [1, 2, 0]"
    by (simp add: gateway3_def upt_conv_Cons rotate1_rotate_swap rotate_def)
  have c: "workerIndex gateway3 + of_nat 3 = 7" "workerIndex gatewayDown + 1 = 8"
    by (simp_all add: gateway3_def gatewayDown_def)
  note t = C5_round_robin [OF h, of gatewayDown clock0, unfolded rot c]
  have e: "list_all Healthy (workers gateway3)"
    "list_all (\<lambda>w. fst (AllowRequest (fst (clock0 0)) (snd (clock0 0)) (CB w)))
       (workers gateway3)"
    by (simp_all add: gateway3_def pool3_def createWorker_def New_def AllowRequest_def)
  from t h d e show ?thesis
    by (simp del: selectWorker_calls.simps)
qed

theorem C5_counterexample:
  "length (workers gateway2) = 2
   \<and> Healthy (workers gateway2 ! 0) \<and> fst (AllowRequest 0 0 (CB (workers gateway2 ! 0)))
   \<and> Healthy (workers gateway2 ! 1) \<and> fst (AllowRequest 0 0 (CB (workers gateway2 ! 1)))
   \<and> fst (selectWorker clock0 gateway2) = Selected 0
   \<and> unat (workerIndex (fst (snd (selectWorker clock0 gateway2)))) mod 2 = 1
   \<and> fst (selectWorker clock0 gateway2)
       \<noteq> Selected (unat (workerIndex (fst (snd (selectWorker clock0 gateway2)))) mod 2)"
proof -
  have w: "length (workers gateway2) = 2" "workerIndex gateway2 = 0"
    "Healthy (workers gateway2 ! 0)" "fst (AllowRequest 0 0 (CB (workers gateway2 ! 0)))"
    "Healthy (workers gateway2 ! 1)" "fst (AllowRequest 0 0 (CB (workers gateway2 ! 1)))"
    "fst (inspect (clock0 0) (workers gateway2 ! 0))"
    by (simp_all add: gateway2_def pool3_def createWorker_def New_def AllowRequest_def
        inspect_def)
  have "fst (inspect (clock0 0) (workers gateway2 ! (unat (workerIndex gateway2) mod 2)))"
    using w by simp
  from selectWorker_first [where clk = clock0, OF w(1) _ _ this] w
  show ?thesis
    by simp
qed

text \<open>
  C6. On a pool that is not empty (\<^verbatim>\<open>NewGateway\<close> returns an error instead of a gateway
  when no worker could be created, and the pool is never changed afterwards), when every
  worker is liveness-false or rejected by its breaker at the instants of the scan,
  \<open>selectWorker\<close> returns the error "all workers are unavailable" and no worker, and the
  gateway is unchanged except for the cursor, advanced by exactly one. (The first test of
  \<open>selectWorker\<close>, for the empty pool, returns "no workers available" before the cursor
  is touched.)
\<close>

theorem C6_no_worker_available:
  assumes "workers g \<noteq> []"
    and "\<forall>w \<in> set (workers g). \<forall>i.
           \<not> Healthy w \<or> \<not> fst (AllowRequest (fst (clk i)) (snd (clk i)) (CB w))"
  shows "fst (selectWorker clk g) = SelectError ''all workers are unavailable''
       \<and> fst (snd (selectWorker clk g)) = g\<lparr> workerIndex := workerIndex g + 1 \<rparr>
       \<and> selectWorker clk (g\<lparr> workers := [] \<rparr>)
           = (SelectError ''no workers available'', g\<lparr> workers := [] \<rparr>, [])"
proof -
  from assms(2) have "\<forall>w \<in> set (workers g). \<forall>j. \<not> fst (inspect (clk j) w)"
    by (simp add: fst_inspect)
  from selectWorker_none [OF assms(1) this] show ?thesis
    by (simp add: selectWorker_def)
qed

theorem C6_no_worker_available_witness:
  "workers gatewayDown \<noteq> []
   \<and> \<not> Healthy (workers gatewayDown ! 0)
   \<and> \<not> fst (AllowRequest (fst (clock0 0)) (snd (clock0 0)) (CB (workers gatewayDown ! 1)))
   \<and> fst (selectWorker clock0 gatewayDown) = SelectError ''all workers are unavailable''
   \<and> fst (snd (selectWorker clock0 gatewayDown)) = gatewayDown\<lparr> workerIndex := 8 \<rparr>"
proof -
  have h: "workers gatewayDown \<noteq> []"
    "\<forall>w \<in> set (workers gatewayDown). \<forall>i.
         \<not> Healthy w \<or> \<not> fst (AllowRequest (fst (clock0 i)) (snd (clock0 i)) (CB w))"
    by (simp_all add: gatewayDown_def createWorker_def open3_def New_def config3_def
        AllowRequest_def clock0_def time_Since_def time_Sub_def Second_def
        minDuration_def maxDuration_def)
  have "workerIndex gatewayDown + 1 = 8"
    by (simp add: gatewayDown_def)
  moreover have "\<not> Healthy (workers gatewayDown ! 0)"
    "\<not> fst (AllowRequest (fst (clock0 0)) (snd (clock0 0)) (CB (workers gatewayDown ! 1)))"
    by (simp_all add: gatewayDown_def createWorker_def open3_def New_def config3_def
        AllowRequest_def clock0_def time_Since_def time_Sub_def Second_def
        minDuration_def maxDuration_def)
  ultimately show ?thesis
    using C6_no_worker_available [OF h] h by simp
qed

text \<open>
  The guard of \<open>selectWorker\<close> on a gateway assembled with an empty pool, which
  \<^verbatim>\<open>NewGateway\<close> never returns: the error comes back with the cursor as it was.
\<close>

lemma selectWorker_empty_pool:
  "workers gateway0 = []
   \<and> fst (selectWorker clock0 gateway0) = SelectError ''no workers available''
   \<and> workerIndex (fst (snd (selectWorker clock0 gateway0))) = workerIndex gateway0"
  by (simp add: selectWorker_def gateway0_def)

lemma selectWorker_no_panic: "fst (selectWorker clk g) \<noteq> IndexPanic"
proof (cases "workers g = []")
  case True
  then show ?thesis by (simp add: selectWorker_def)
next
  case False
  then show ?thesis by (simp add: selectWorker_cursor)
qed

lemma Execute_closure_error:
  assumes "fst (AllowRequest ta tt cb)" and "gen w = (Inl e, w1)"
  shows "Execute ta tt tf tr (closure gen) cb (None, w) =
           (Some (CallError e), RecordFailure tf tr (snd (AllowRequest ta tt cb)), (None, w1))"
  using assms
  by (cases "AllowRequest ta tt cb") (simp add: Execute_def closure_def)

lemma Execute_closure_success:
  assumes "fst (AllowRequest ta tt cb)" and "gen w = (Inr r, w1)"
  shows "Execute ta tt tf tr (closure gen) cb (None, w) =
           (None, RecordSuccess tr (snd (AllowRequest ta tt cb)), (Some r, w1))"
  using assms
  by (cases "AllowRequest ta tt cb") (simp add: Execute_def closure_def)

lemma Execute_closure_refused:
  assumes "\<not> fst (AllowRequest ta tt cb)"
  shows "Execute ta tt tf tr (closure gen) cb (None, w) =
           (Some ErrCircuitOpen, snd (AllowRequest ta tt cb), (None, w))"
  using assms
  by (cases "AllowRequest ta tt cb") (simp add: Execute_def)

text \<open>The four ways through \<open>handlePrompt\<close>.\<close>

lemma handlePrompt_select_error:
  assumes "selectWorker clk g = (SelectError m, g1, seen)"
  shows "handlePrompt clk between ta tt tf tr generate g w =
      ((ReplyError (503, \<lparr> Error = ''no workers available'', Code = 503, Message = m \<rparr>),
        ''503''), g1, w)"
  using assms by (simp add: handlePrompt_def selectErrorReply_def writeError_def)

lemma handlePrompt_circuit_open:
  assumes "selectWorker clk g = (Selected k, g1, seen)"
    and "\<not> fst (AllowRequest ta tt (calls between (CB (workers g1 ! k))))"
  shows "handlePrompt clk between ta tt tf tr generate g w =
      ((ReplyError (503, \<lparr> Error = ''worker temporarily unavailable'', Code = 503,
                            Message = [] \<rparr>), ''500''),
       g1\<lparr> workers := (workers g1)[k := (workers g1 ! k)
             \<lparr> CB := snd (AllowRequest ta tt (calls between (CB (workers g1 ! k)))) \<rparr>] \<rparr>,
       w)"
  using assms(1) Execute_closure_refused [OF assms(2), of tf tr "generate k" w]
  by (simp add: handlePrompt_def writeError_def)

lemma handlePrompt_call_error:
  assumes "selectWorker clk g = (Selected k, g1, seen)"
    and "fst (AllowRequest ta tt (calls between (CB (workers g1 ! k))))"
    and "generate k w = (Inl e, w1)"
  shows "handlePrompt clk between ta tt tf tr generate g w =
      ((ReplyError (500, \<lparr> Error = ''generation failed'', Code = 500,
                            Message = errorText e \<rparr>), ''500''),
       g1\<lparr> workers := (workers g1)[k := (workers g1 ! k)
             \<lparr> CB := RecordFailure tf tr
                      (snd (AllowRequest ta tt (calls between (CB (workers g1 ! k))))) \<rparr>] \<rparr>,
       w1)"
  using assms(1) Execute_closure_error [where gen = "generate k", OF assms(2,3), of tf tr]
  by (simp add: handlePrompt_def writeError_def)

lemma handlePrompt_success:
  assumes "selectWorker clk g = (Selected k, g1, seen)"
    and "fst (AllowRequest ta tt (calls between (CB (workers g1 ! k))))"
    and "generate k w = (Inr r, w1)"
  shows "handlePrompt clk between ta tt tf tr generate g w =
      ((ReplyOK r k, ''200''),
       g1\<lparr> workers := (workers g1)[k := (workers g1 ! k)
             \<lparr> CB := RecordSuccess tr
                      (snd (AllowRequest ta tt (calls between (CB (workers g1 ! k))))) \<rparr>] \<rparr>,
       w1)"
  using assms(1) Execute_closure_success [where gen = "generate k", OF assms(2,3), of tf tr]
  by (simp add: handlePrompt_def)

lemma handlePrompt_classes:
  "replyClass (fst (handlePrompt clk between ta tt tf tr generate g w))
     \<in> {(503, ''no workers available'', ''503''),
         (503, ''worker temporarily unavailable'', ''500''),
         (500, ''generation failed'', ''500''),
         (200, [], ''200'')}"
proof -
  obtain r g1 seen where sel: "selectWorker clk g = (r, g1, seen)"
    by (cases "selectWorker clk g")
  show ?thesis
  proof (cases r)
    case (SelectError m)
    with sel show ?thesis
      by (simp add: handlePrompt_select_error replyClass_def)
  next
    case IndexPanic
    with sel selectWorker_no_panic [of clk g] show ?thesis by simp
  next
    case (Selected k)
    with sel have s: "selectWorker clk g = (Selected k, g1, seen)" by simp
    show ?thesis
    proof (cases "fst (AllowRequest ta tt (calls between (CB (workers g1 ! k))))")
      case False
      from handlePrompt_circuit_open [OF s False, of tf tr generate w] show ?thesis
        by (simp add: replyClass_def)
    next
      case True
      obtain x w1 where gen: "generate k w = (x, w1)"
        by (cases "generate k w")
      show ?thesis
      proof (cases x)
        case (Inl e)
        with gen handlePrompt_call_error [OF s True, of generate w _ w1 tf tr] show ?thesis
          by (simp add: replyClass_def)
      next
        case (Inr y)
        with gen handlePrompt_success [OF s True, of generate w _ w1 tf tr] show ?thesis
          by (simp add: replyClass_def)
      qed
    qed
  qed
qed

text \<open>
  C7, as the code has it. \<open>handlePrompt\<close> has four ways through, and every run takes one
  of them. (1) A worker is selected, its breaker permits the call and the remote call fails
  with an error \<open>e\<close> of either kind, deadline exceeded or reported by the backend: a failure
  is recorded on that breaker and the answer is HTTP 500 with the error
  "generation failed" and the text of \<open>e\<close> as message. (2) A worker is selected and its
  breaker refuses the call: the answer is 503 "worker temporarily unavailable" and the
  remote call is not made. (3) No worker is selected: the answer is 503
  "no workers available" with the text of the selection error. (4) The remote call
  succeeds. So the error answers fall into three classes, pairwise different in status or
  error field, and the class of every answer is one of these three or success. The answer
  to a failed remote call depends on the text of the error only, not on its kind: a
  deadline-exceeded error and a backend error of the same text get the same answer.
\<close>

theorem C7_error_outcomes:
  "(selectWorker clk g = (Selected k, g1, seen)
      \<and> fst (AllowRequest ta tt (calls between (CB (workers g1 ! k))))
      \<and> generate k w = (Inl e, w1) \<longrightarrow>
    handlePrompt clk between ta tt tf tr generate g w =
      ((ReplyError (500, \<lparr> Error = ''generation failed'', Code = 500,
                            Message = errorText e \<rparr>) :: 'r http_reply, ''500''),
       g1\<lparr> workers := (workers g1)[k := (workers g1 ! k)
             \<lparr> CB := RecordFailure tf tr
                      (snd (AllowRequest ta tt (calls between (CB (workers g1 ! k))))) \<rparr>] \<rparr>,
       w1))
   \<and> (selectWorker clk g = (Selected k, g1, seen)
      \<and> \<not> fst (AllowRequest ta tt (calls between (CB (workers g1 ! k)))) \<longrightarrow>
    handlePrompt clk between ta tt tf tr generate g w =
      ((ReplyError (503, \<lparr> Error = ''worker temporarily unavailable'', Code = 503,
                            Message = [] \<rparr>) :: 'r http_reply, ''500''),
       g1\<lparr> workers := (workers g1)[k := (workers g1 ! k)
             \<lparr> CB := snd (AllowRequest ta tt (calls between (CB (workers g1 ! k)))) \<rparr>] \<rparr>,
       w))
   \<and> (selectWorker clk g = (SelectError m, g1, seen) \<longrightarrow>
    handlePrompt clk between ta tt tf tr generate g w =
      ((ReplyError (503, \<lparr> Error = ''no workers available'', Code = 503,
                            Message = m \<rparr>) :: 'r http_reply, ''503''),
       g1, w))
   \<and> (selectWorker clk g = (Selected k, g1, seen)
      \<and> fst (AllowRequest ta tt (calls between (CB (workers g1 ! k))))
      \<and> generate k w = (Inr r, w1) \<longrightarrow>
    handlePrompt clk between ta tt tf tr generate g w =
      ((ReplyOK r k, ''200''),
       g1\<lparr> workers := (workers g1)[k := (workers g1 ! k)
             \<lparr> CB := RecordSuccess tr
                      (snd (AllowRequest ta tt (calls between (CB (workers g1 ! k))))) \<rparr>] \<rparr>,
       w1))
   \<and> replyClass (fst (handlePrompt clk between ta tt tf tr generate g w))
       \<in> {(503, ''no workers available'', ''503''),
           (503, ''worker temporarily unavailable'', ''500''),
           (500, ''generation failed'', ''500''),
           (200, [], ''200'')}
   \<and> (selectWorker clk g = (Selected k, g1, seen)
      \<and> generate k w = (Inl (DeadlineExceeded s), w1)
      \<and> generate2 k w = (Inl (BackendError s), w1) \<longrightarrow>
    handlePrompt clk between ta tt tf tr generate g w
      = (handlePrompt clk between ta tt tf tr generate2 g w
           :: ('r http_reply \<times> string) \<times> Gateway \<times> 'w))
   \<and> (executeErrorReply (CallError (DeadlineExceeded s)) :: 'r http_reply \<times> string)
       = executeErrorReply (CallError (BackendError s))
   \<and> replyClass (executeErrorReply (CallError e) :: 'r http_reply \<times> string)
       = (500, ''generation failed'', ''500'')
   \<and> replyClass (executeErrorReply ErrCircuitOpen :: 'r http_reply \<times> string)
       = (503, ''worker temporarily unavailable'', ''500'')
   \<and> replyClass (selectErrorReply m :: 'r http_reply \<times> string)
       = (503, ''no workers available'', ''503'')"
proof (intro conjI impI)
  assume a: "selectWorker clk g = (Selected k, g1, seen)
      \<and> generate k w = (Inl (DeadlineExceeded s), w1)
      \<and> generate2 k w = (Inl (BackendError s), w1)"
  show "handlePrompt clk between ta tt tf tr generate g w
      = (handlePrompt clk between ta tt tf tr generate2 g w
           :: ('r http_reply \<times> string) \<times> Gateway \<times> 'w)"
  proof (cases "fst (AllowRequest ta tt (calls between (CB (workers g1 ! k))))")
    case True
    with a show ?thesis
      by (simp add: handlePrompt_call_error [where e = "DeadlineExceeded s"]
          handlePrompt_call_error [where e = "BackendError s"])
  next
    case False
    with a show ?thesis
      by (simp add: handlePrompt_circuit_open)
  qed
next
  show "replyClass (fst (handlePrompt clk between ta tt tf tr generate g w))
       \<in> {(503, ''no workers available'', ''503''),
           (503, ''worker temporarily unavailable'', ''500''),
           (500, ''generation failed'', ''500''),
           (200, [], ''200'')}"
    by (rule handlePrompt_classes)
qed (simp_all add: handlePrompt_call_error handlePrompt_circuit_open handlePrompt_select_error
    handlePrompt_success replyClass_def writeError_def selectErrorReply_def)

theorem C7_error_outcomes_witness:
  "selectWorker clock0 gateway2 = (Selected 0, gateway2\<lparr> workerIndex := 1 \<rparr>, [0])
   \<and> fst (AllowRequest 2 2 (calls [] (CB (workers (gateway2\<lparr> workerIndex := 1 \<rparr>) ! 0))))
   \<and> handlePrompt clock0 [] 2 2 3 3
        (\<lambda>k w. (Inl (DeadlineExceeded ''context deadline exceeded''), w)) gateway2 ()
      = ((ReplyError (500, \<lparr> Error = ''generation failed'', Code = 500,
                             Message = ''context deadline exceeded'' \<rparr>) :: unit http_reply,
          ''500''),
         gateway2\<lparr> workers := (workers gateway2)[0 := (workers gateway2 ! 0)
             \<lparr> CB := RecordFailure 3 3 (CB (workers gateway2 ! 0)) \<rparr>], workerIndex := 1 \<rparr>,
         ())
   \<and> \<not> fst (AllowRequest (2 * Second) (2 * Second)
          (calls [CallRecordFailure Second Second, CallRecordFailure Second Second,
                  CallRecordFailure Second Second]
             (CB (workers (gateway2\<lparr> workerIndex := 1 \<rparr>) ! 0))))
   \<and> fst (handlePrompt clock0
          [CallRecordFailure Second Second, CallRecordFailure Second Second,
           CallRecordFailure Second Second]
          (2 * Second) (2 * Second) 3 3 (\<lambda>k w. (Inr (), Suc w)) gateway2 (0 :: nat))
      = (ReplyError (503, \<lparr> Error = ''worker temporarily unavailable'', Code = 503,
                            Message = [] \<rparr>) :: unit http_reply, ''500'')
   \<and> snd (snd (handlePrompt clock0
          [CallRecordFailure Second Second, CallRecordFailure Second Second,
           CallRecordFailure Second Second]
          (2 * Second) (2 * Second) 3 3
          (\<lambda>k w. (Inr () :: rpc_error + unit, Suc w)) gateway2 (0 :: nat))) = 0
   \<and> fst (selectWorker clock0 gatewayDown) = SelectError ''all workers are unavailable''
   \<and> fst (handlePrompt clock0 [] 2 2 3 3
          (\<lambda>k w. (Inr () :: rpc_error + unit, w)) gatewayDown ())
      = (ReplyError (503, \<lparr> Error = ''no workers available'', Code = 503,
                            Message = ''all workers are unavailable'' \<rparr>), ''503'')
   \<and> fst (handlePrompt clock0 [] 2 2 3 3
          (\<lambda>k w. (Inr ''text'' :: rpc_error + string, w)) gateway2 ())
      = (ReplyOK ''text'' 0, ''200'')"
proof -
  let ?fails = "[CallRecordFailure Second Second, CallRecordFailure Second Second,
                 CallRecordFailure Second Second]"
  let ?g1 = "gateway2\<lparr> workerIndex := 1 \<rparr>"
  have w: "length (workers gateway2) = 2" "workerIndex gateway2 = 0"
    "fst (inspect (clock0 0) (workers gateway2 ! 0))"
    "snd (inspect (clock0 0) (workers gateway2 ! 0)) = workers gateway2 ! 0"
    "AllowRequest 2 2 (CB (workers gateway2 ! 0)) = (True, CB (workers gateway2 ! 0))"
    by (simp_all add: gateway2_def pool3_def createWorker_def New_def AllowRequest_def
        inspect_def)
  have "fst (inspect (clock0 0) (workers gateway2 ! (unat (workerIndex gateway2) mod 2)))"
    using w by simp
  from selectWorker_first [where clk = clock0, OF w(1) _ _ this] w
  have sel: "selectWorker clock0 gateway2 = (Selected 0, ?g1, [0])"
    by simp
  have refused: "\<not> fst (AllowRequest (2 * Second) (2 * Second)
      (calls ?fails (CB (workers ?g1 ! 0))))"
    by (simp add: gateway2_def pool3_def createWorker_def New_def breaker_defs Let_def
        time_Since_def time_Sub_def Second_def minDuration_def maxDuration_def)
  have down: "workers gatewayDown \<noteq> []"
    "\<forall>w \<in> set (workers gatewayDown). \<forall>j. \<not> fst (inspect (clock0 j) w)"
    by (simp_all add: gatewayDown_def createWorker_def open3_def New_def config3_def
        inspect_def AllowRequest_def clock0_def time_Since_def time_Sub_def Second_def
        minDuration_def maxDuration_def)
  from selectWorker_none [OF down]
  have selD: "selectWorker clock0 gatewayDown =
      (SelectError ''all workers are unavailable'',
       gatewayDown\<lparr> workerIndex := workerIndex gatewayDown + 1 \<rparr>,
       snd (snd (selectWorker clock0 gatewayDown)))"
    by (metis prod.collapse)
  note a = C7_error_outcomes [where ?'r = unit and ?'w = unit and clk = clock0
      and g = gateway2 and k = 0 and ?g1.0 = ?g1 and seen = "[0]" and between = "[]"
      and ta = 2 and tt = 2 and tf = 3 and tr = 3 and w = "()" and ?w1.0 = "()"
      and e = "DeadlineExceeded ''context deadline exceeded''"
      and generate = "\<lambda>k w. (Inl (DeadlineExceeded ''context deadline exceeded''), w)"]
  note b = C7_error_outcomes [where ?'r = unit and ?'w = nat and clk = clock0
      and g = gateway2 and k = 0 and ?g1.0 = ?g1 and seen = "[0]" and between = ?fails
      and ta = "2 * Second" and tt = "2 * Second" and tf = 3 and tr = 3 and w = 0
      and generate = "\<lambda>k w. (Inr (), Suc w)"]
  note c = C7_error_outcomes [where ?'r = unit and ?'w = unit and clk = clock0
      and g = gatewayDown and m = "''all workers are unavailable''"
      and ?g1.0 = "gatewayDown\<lparr> workerIndex := workerIndex gatewayDown + 1 \<rparr>"
      and seen = "snd (snd (selectWorker clock0 gatewayDown))" and between = "[]"
      and ta = 2 and tt = 2 and tf = 3 and tr = 3 and w = "()"
      and generate = "\<lambda>k w. (Inr (), w)"]
  note d = C7_error_outcomes [where ?'r = string and ?'w = unit and clk = clock0
      and g = gateway2 and k = 0 and ?g1.0 = ?g1 and seen = "[0]" and between = "[]"
      and ta = 2 and tt = 2 and tf = 3 and tr = 3 and w = "()" and ?w1.0 = "()"
      and r = "''text''" and generate = "\<lambda>k w. (Inr ''text'', w)"]
  have 1: "handlePrompt clock0 [] 2 2 3 3
        (\<lambda>k w. (Inl (DeadlineExceeded ''context deadline exceeded''), w)) gateway2 ()
      = ((ReplyError (500, \<lparr> Error = ''generation failed'', Code = 500,
                             Message = ''context deadline exceeded'' \<rparr>) :: unit http_reply,
          ''500''),
         gateway2\<lparr> workers := (workers gateway2)[0 := (workers gateway2 ! 0)
             \<lparr> CB := RecordFailure 3 3 (CB (workers gateway2 ! 0)) \<rparr>], workerIndex := 1 \<rparr>,
         ())"
    using a sel w by simp
  have 2: "handlePrompt clock0 ?fails (2 * Second) (2 * Second) 3 3
          (\<lambda>k w. (Inr () :: rpc_error + unit, Suc w)) gateway2 (0 :: nat)
      = ((ReplyError (503, \<lparr> Error = ''worker temporarily unavailable'', Code = 503,
                            Message = [] \<rparr>), ''500''),
         ?g1\<lparr> workers := (workers ?g1)[0 := (workers ?g1 ! 0)
               \<lparr> CB := snd (AllowRequest (2 * Second) (2 * Second)
                        (calls ?fails (CB (workers ?g1 ! 0)))) \<rparr>] \<rparr>, 0)"
    using b sel refused by blast
  have 3: "handlePrompt clock0 [] 2 2 3 3
          (\<lambda>k w. (Inr () :: rpc_error + unit, w)) gatewayDown ()
      = ((ReplyError (503, \<lparr> Error = ''no workers available'', Code = 503,
                            Message = ''all workers are unavailable'' \<rparr>), ''503''),
         gatewayDown\<lparr> workerIndex := workerIndex gatewayDown + 1 \<rparr>, ())"
    using c selD by blast
  have 4: "handlePrompt clock0 [] 2 2 3 3
          (\<lambda>k w. (Inr ''text'' :: rpc_error + string, w)) gateway2 ()
      = ((ReplyOK ''text'' 0, ''200''),
         ?g1\<lparr> workers := (workers ?g1)[0 := (workers ?g1 ! 0)
               \<lparr> CB := RecordSuccess 3
                        (snd (AllowRequest 2 2 (calls [] (CB (workers ?g1 ! 0))))) \<rparr>] \<rparr>, ())"
    using d sel w by simp
  have ok: "fst (AllowRequest 2 2 (calls [] (CB (workers ?g1 ! 0))))"
    using w by simp
  have fstD: "fst (selectWorker clock0 gatewayDown) = SelectError ''all workers are unavailable''"
    using selectWorker_none [OF down] by simp
  show ?thesis
    unfolding 1 2 3 4 fst_conv snd_conv
    using sel ok refused fstD by (intro conjI) simp_all
qed

theorem C7_counterexample:
  "(executeErrorReply (CallError (DeadlineExceeded ''context deadline exceeded''))
       :: unit http_reply \<times> string)
     = executeErrorReply (CallError (BackendError ''context deadline exceeded''))
   \<and> replyClass (executeErrorReply (CallError
         (DeadlineExceeded ''rpc error: code = DeadlineExceeded desc = context deadline exceeded''))
       :: unit http_reply \<times> string)
     = replyClass (executeErrorReply (CallError
         (BackendError ''rpc error: code = Internal desc = failed to generate text''))
       :: unit http_reply \<times> string)
   \<and> (handlePrompt clock0 [] 2 2 3 3
          (\<lambda>k w. (Inl (DeadlineExceeded ''context deadline exceeded''), w)) gateway2 ()
        :: (unit http_reply \<times> string) \<times> Gateway \<times> unit)
     = handlePrompt clock0 [] 2 2 3 3
          (\<lambda>k w. (Inl (BackendError ''context deadline exceeded''), w)) gateway2 ()"
proof -
  have w: "length (workers gateway2) = 2" "workerIndex gateway2 = 0"
    "fst (inspect (clock0 0) (workers gateway2 ! 0))"
    "snd (inspect (clock0 0) (workers gateway2 ! 0)) = workers gateway2 ! 0"
    "AllowRequest 2 2 (CB (workers gateway2 ! 0)) = (True, CB (workers gateway2 ! 0))"
    by (simp_all add: gateway2_def pool3_def createWorker_def New_def AllowRequest_def
        inspect_def)
  have "fst (inspect (clock0 0) (workers gateway2 ! (unat (workerIndex gateway2) mod 2)))"
    using w by simp
  from selectWorker_first [where clk = clock0, OF w(1) _ _ this] w
  have sel: "selectWorker clock0 gateway2 = (Selected 0, gateway2\<lparr> workerIndex := 1 \<rparr>, [0])"
    by simp
  have ok: "fst (AllowRequest 2 2 (calls [] (CB (workers (gateway2\<lparr> workerIndex := 1 \<rparr>) ! 0))))"
    using w by simp
  have "(handlePrompt clock0 [] 2 2 3 3
          (\<lambda>k w. (Inl (DeadlineExceeded ''context deadline exceeded''), w)) gateway2 ()
        :: (unit http_reply \<times> string) \<times> Gateway \<times> unit)
     = handlePrompt clock0 [] 2 2 3 3
          (\<lambda>k w. (Inl (BackendError ''context deadline exceeded''), w)) gateway2 ()"
    by (simp add: handlePrompt_call_error [OF sel ok])
  then show ?thesis
    by (simp add: replyClass_def writeError_def)
qed


subsection \<open>The scan at the overflow of the cursor\<close>

lemma scanWorkers_reject:
  assumes "i < n" and "unat ((s + i) mod n) = k" and "k < length ws"
    and "\<not> Healthy (ws ! k)"
  shows "scanWorkers clk s n i ws seen = scanWorkers clk s n (i + 1) ws (seen @ [k])"
  using assms by (subst scanWorkers.simps) (simp add: Let_def inspect_def)

lemma scanWorkers_done:
  assumes "\<not> i < n"
  shows "scanWorkers clk s n i ws seen = (SelectError ''all workers are unavailable'', ws, seen)"
  using assms by (subst scanWorkers.simps) simp

text \<open>
  When the cursor is at its largest value, \<open>startIndex + i\<close> wraps around inside the scan:
  on a pool of three the slots inspected are 0, 0 and 1, and the third worker is never
  looked at, eligible or not.
\<close>

lemma selectWorker_wraps_inside_scan:
  assumes "workers g = [w0, w1, w2]" and "workerIndex g = 4294967295"
    and "\<not> Healthy w0" and "\<not> Healthy w1"
  shows "selectWorker clk g =
           (SelectError ''all workers are unavailable'', g\<lparr> workerIndex := 0 \<rparr>, [0, 0, 1])"
proof -
  let ?ws = "[w0, w1, w2]"
  have "scanWorkers clk 4294967295 3 0 ?ws [] = scanWorkers clk 4294967295 3 1 ?ws [0]"
    using assms(3) scanWorkers_reject [of 0 3 4294967295 0 ?ws clk "[]"] by simp
  also have "\<dots> = scanWorkers clk 4294967295 3 2 ?ws [0, 0]"
    using assms(3) scanWorkers_reject [of 1 3 4294967295 0 ?ws clk "[0]"] by simp
  also have "\<dots> = scanWorkers clk 4294967295 3 3 ?ws [0, 0, 1]"
    using assms(4) scanWorkers_reject [of 2 3 4294967295 1 ?ws clk "[0, 0]"] by simp
  also have "\<dots> = (SelectError ''all workers are unavailable'', ?ws, [0, 0, 1])"
    by (simp add: scanWorkers_done)
  finally show ?thesis
    using assms(1,2) by (simp add: selectWorker_def Let_def)
qed

end
